theory Spec2Isabelle
  imports Complex_Main "HOL-Library.Word"
begin

section \<open>The escrow ledger (contracts/MNEEEscrow.sol)\<close>

text \<open>
  The ledger is a Solidity 0.8 contract. An external call either runs to its end or
  reverts, and a revert undoes every write of the call. Each function below takes
  the state before the call and the caller (\<open>msg.sender\<close>) and returns either the
  error of the revert (\<open>Inl\<close>) or the state after the call (\<open>Inr\<close>).
  The token makes no call back into the ledger, so the \<open>nonReentrant\<close> guard never
  fires and is left out.

  \<open>uint256\<close> values are natural numbers; the checked arithmetic of Solidity 0.8
  (a panic on overflow, on underflow and on division by zero) is written out where the
  source computes. An argument of the contract is below \<open>2 ^ 256\<close>; the model
  accepts every natural number, and what is proved holds for all of them.
  \<open>uint8\<close> values are 8-bit words, addresses 160-bit words.
\<close>

type_synonym address = "160 word"
type_synonym uint8 = "8 word"
type_synonym uint256 = nat
type_synonym bytes32 = "256 word"

datatype DisputeStatus = NONE | OPEN | RESOLVED_FULL | RESOLVED_PARTIAL | REFUNDED

record Escrow =
  payer :: address
  agent :: address
  totalAmount :: uint256
  paidAmount :: uint256
  totalMilestones :: uint8
  milestonesCompleted :: uint8
  isActive :: bool
  isCompleted :: bool
  disputeStatus :: DisputeStatus

record WorkProof =
  proofAgent :: address
  workHash :: bytes32
  timestamp :: uint256
  isVerified :: bool

datatype role = DEFAULT_ADMIN_ROLE | AGENT_ROLE | JUDGE_ROLE

text \<open>
  The events of the ledger, and the \<open>Transfer\<close> event of the token, in the order in
  which a transaction logs them.
\<close>

datatype event =
    EscrowCreated string address address uint256 uint8
  | MilestoneReleased string uint8 uint256
  | EscrowCompleted string
  | EscrowCancelled string address uint256
  | WorkProofSubmitted string uint8 address bytes32
  | WorkProofVerified string uint8
  | DisputeRaised string address
  | DisputeResolved string DisputeStatus
  | ReputationUpdated address uint256
  | Transfer address address uint256

datatype error =
    Revert string
  | Panic nat
  | AccessControlUnauthorizedAccount address role
  | ERC20InsufficientBalance address uint256 uint256
  | ERC20InsufficientAllowance address uint256 uint256
  | ERC20InvalidSender address
  | ERC20InvalidReceiver address
  | ERC20InvalidApprover address
  | ERC20InvalidSpender address

text \<open>
  The state: the three mappings of the contract, the role table of AccessControl, the
  contract's own address (\<open>address(this)\<close>), the balances and allowances of the MNEE
  token, and the log. A mapping of Solidity is total: an absent key reads as the zero
  value.
\<close>

record ledger =
  escrows :: "string \<Rightarrow> Escrow"
  milestoneProofs :: "string \<Rightarrow> uint8 \<Rightarrow> WorkProof"
  reputations :: "address \<Rightarrow> uint256"
  roles :: "role \<Rightarrow> address \<Rightarrow> bool"
  this :: address
  balances :: "address \<Rightarrow> uint256"
  allowances :: "address \<Rightarrow> address \<Rightarrow> uint256"
  events :: "event list"

definition emit :: "event \<Rightarrow> ledger \<Rightarrow> ledger" where
  "emit e s = s\<lparr>events := events s @ [e]\<rparr>"

definition MAX_UINT256 :: nat where
  "MAX_UINT256 = 2 ^ 256 - 1"

definition checked_add :: "uint256 \<Rightarrow> uint256 \<Rightarrow> error + uint256" where
  "checked_add a b = (if a + b \<le> MAX_UINT256 then Inr (a + b) else Inl (Panic 17))"

definition checked_sub :: "uint256 \<Rightarrow> uint256 \<Rightarrow> error + uint256" where
  "checked_sub a b = (if b \<le> a then Inr (a - b) else Inl (Panic 17))"

definition checked_div :: "uint256 \<Rightarrow> uint256 \<Rightarrow> error + uint256" where
  "checked_div a b = (if b = 0 then Inl (Panic 18) else Inr (a div b))"

definition checked_add8 :: "uint8 \<Rightarrow> uint8 \<Rightarrow> error + uint8" where
  "checked_add8 a b = (if unat a + unat b < 256 then Inr (a + b) else Inl (Panic 17))"

definition checked_sub8 :: "uint8 \<Rightarrow> uint8 \<Rightarrow> error + uint8" where
  "checked_sub8 a b = (if b \<le> a then Inr (a - b) else Inl (Panic 17))"

subsection \<open>The token (contracts/MNEE.sol, an OpenZeppelin 5 ERC20)\<close>

text \<open>
  MNEE.sol inherits \<open>transfer\<close> and \<open>transferFrom\<close> from OpenZeppelin's ERC20: they
  revert on a zero address, on a balance or an allowance that is too small, and return
  true otherwise; an allowance of the maximal value is not spent. The sum of all
  balances is the total supply, a \<open>uint256\<close>, so crediting a balance does not overflow.
\<close>

definition moveTokens :: "address \<Rightarrow> address \<Rightarrow> uint256 \<Rightarrow> (address \<Rightarrow> uint256) \<Rightarrow> (address \<Rightarrow> uint256)" where
  "moveTokens from to v b = (let b1 = b(from := b from - v) in b1(to := b1 to + v))"

definition token_update :: "address \<Rightarrow> address \<Rightarrow> uint256 \<Rightarrow> ledger \<Rightarrow> error + ledger" where
  "token_update from to v s =
     (if balances s from < v then Inl (ERC20InsufficientBalance from (balances s from) v)
      else Inr (emit (Transfer from to v) (s\<lparr>balances := moveTokens from to v (balances s)\<rparr>)))"

definition token_transfer_internal :: "address \<Rightarrow> address \<Rightarrow> uint256 \<Rightarrow> ledger \<Rightarrow> error + ledger" where
  "token_transfer_internal from to v s =
     (if from = 0 then Inl (ERC20InvalidSender 0)
      else if to = 0 then Inl (ERC20InvalidReceiver 0)
      else token_update from to v s)"

definition token_transfer :: "address \<Rightarrow> address \<Rightarrow> uint256 \<Rightarrow> ledger \<Rightarrow> error + ledger" where
  "token_transfer caller to v s = token_transfer_internal caller to v s"

definition token_spendAllowance :: "address \<Rightarrow> address \<Rightarrow> uint256 \<Rightarrow> ledger \<Rightarrow> error + ledger" where
  "token_spendAllowance owner spender v s =
     (let currentAllowance = allowances s owner spender in
      if currentAllowance < MAX_UINT256 then
        (if currentAllowance < v then Inl (ERC20InsufficientAllowance spender currentAllowance v)
         else if owner = 0 then Inl (ERC20InvalidApprover 0)
         else if spender = 0 then Inl (ERC20InvalidSpender 0)
         else Inr (s\<lparr>allowances := (allowances s)(owner := (allowances s owner)(spender := currentAllowance - v))\<rparr>))
      else Inr s)"

definition token_transferFrom :: "address \<Rightarrow> address \<Rightarrow> address \<Rightarrow> uint256 \<Rightarrow> ledger \<Rightarrow> error + ledger" where
  "token_transferFrom caller from to v s =
     (case token_spendAllowance from caller v s of
        Inl e \<Rightarrow> Inl e
      | Inr s1 \<Rightarrow> token_transfer_internal from to v s1)"

subsection \<open>Roles and reputation\<close>

definition hasRole :: "ledger \<Rightarrow> role \<Rightarrow> address \<Rightarrow> bool" where
  "hasRole s r a = roles s r a"

definition grantRole_internal :: "role \<Rightarrow> address \<Rightarrow> ledger \<Rightarrow> ledger" where
  "grantRole_internal r a s = s\<lparr>roles := (roles s)(r := (roles s r)(a := True))\<rparr>"

text \<open>
  \<open>_updateReputation\<close>. The conditional \<open>current - 10 < 0 ? 0 : current - 10\<close> is on
  unsigned integers, and is kept as the source has it.
\<close>

definition updateReputation :: "address \<Rightarrow> bool \<Rightarrow> ledger \<Rightarrow> ledger" where
  "updateReputation a success s =
     (let current = reputations s a;
          s1 = (if success then
                  (if current < 100
                   then s\<lparr>reputations := (reputations s)(a := (if current + 5 > 100 then 100 else current + 5))\<rparr>
                   else s)
                else
                  (if current > 10
                   then s\<lparr>reputations := (reputations s)(a := (if current - 10 < 0 then 0 else current - 10))\<rparr>
                   else s))
      in emit (ReputationUpdated a (reputations s1 a)) s1)"

text \<open>The constructor: the deployer receives the three roles.\<close>

definition constructor :: "address \<Rightarrow> address \<Rightarrow> (address \<Rightarrow> uint256) \<Rightarrow> (address \<Rightarrow> address \<Rightarrow> uint256) \<Rightarrow> ledger" where
  "constructor deployer self bal allow =
     grantRole_internal JUDGE_ROLE deployer
       (grantRole_internal AGENT_ROLE deployer
         (grantRole_internal DEFAULT_ADMIN_ROLE deployer
           \<lparr>escrows = (\<lambda>_. \<lparr>payer = 0, agent = 0, totalAmount = 0, paidAmount = 0,
                             totalMilestones = 0, milestonesCompleted = 0, isActive = False,
                             isCompleted = False, disputeStatus = NONE\<rparr>),
            milestoneProofs = (\<lambda>_ _. \<lparr>proofAgent = 0, workHash = 0, timestamp = 0, isVerified = False\<rparr>),
            reputations = (\<lambda>_. 0),
            roles = (\<lambda>_ _. False),
            this = self,
            balances = bal,
            allowances = allow,
            events = []\<rparr>))"

definition grantAgentRole :: "ledger \<Rightarrow> address \<Rightarrow> address \<Rightarrow> error + ledger" where
  "grantAgentRole s sender a =
     (if \<not> hasRole s DEFAULT_ADMIN_ROLE sender
      then Inl (AccessControlUnauthorizedAccount sender DEFAULT_ADMIN_ROLE)
      else Inr (grantRole_internal AGENT_ROLE a s))"

definition grantJudgeRole :: "ledger \<Rightarrow> address \<Rightarrow> address \<Rightarrow> error + ledger" where
  "grantJudgeRole s sender a =
     (if \<not> hasRole s DEFAULT_ADMIN_ROLE sender
      then Inl (AccessControlUnauthorizedAccount sender DEFAULT_ADMIN_ROLE)
      else Inr (grantRole_internal JUDGE_ROLE a s))"

subsection \<open>The ledger operations\<close>

definition createEscrow :: "ledger \<Rightarrow> address \<Rightarrow> string \<Rightarrow> address \<Rightarrow> uint256 \<Rightarrow> uint8 \<Rightarrow> error + ledger" where
  "createEscrow s sender taskId ag amount milestones =
     (if \<not> amount > 0 then Inl (Revert ''Amount must be greater than zero'')
      else if \<not> ag \<noteq> 0 then Inl (Revert ''Agent address cannot be zero'')
      else if \<not> milestones > 0 then Inl (Revert ''At least one milestone required'')
      else if \<not> (\<not> isActive (escrows s taskId) \<and> \<not> isCompleted (escrows s taskId))
        then Inl (Revert ''Escrow exists'')
      else
        (case token_transferFrom (this s) sender (this s) amount s of
           Inl e \<Rightarrow> Inl e
         | Inr s1 \<Rightarrow>
             let s2 = s1\<lparr>escrows := (escrows s1)(taskId :=
                          \<lparr>payer = sender, agent = ag, totalAmount = amount, paidAmount = 0,
                           totalMilestones = milestones, milestonesCompleted = 0,
                           isActive = True, isCompleted = False, disputeStatus = NONE\<rparr>)\<rparr>;
                 s3 = (if reputations s2 ag = 0
                       then emit (ReputationUpdated ag 50)
                              (s2\<lparr>reputations := (reputations s2)(ag := 50)\<rparr>)
                       else s2)
             in Inr (emit (EscrowCreated taskId sender ag amount milestones) s3)))"

definition submitWorkProof :: "ledger \<Rightarrow> address \<Rightarrow> uint256 \<Rightarrow> string \<Rightarrow> uint8 \<Rightarrow> bytes32 \<Rightarrow> error + ledger" where
  "submitWorkProof s sender block_timestamp taskId milestoneIndex wh =
     (let escrow = escrows s taskId in
      if \<not> isActive escrow then Inl (Revert ''Not active'')
      else if \<not> sender = agent escrow then Inl (Revert ''Only agent'')
      else if \<not> milestoneIndex < totalMilestones escrow then Inl (Revert ''Invalid milestone'')
      else if \<not> timestamp (milestoneProofs s taskId milestoneIndex) = 0
        then Inl (Revert ''Already submitted'')
      else
        Inr (emit (WorkProofSubmitted taskId milestoneIndex sender wh)
               (s\<lparr>milestoneProofs := (milestoneProofs s)(taskId :=
                     (milestoneProofs s taskId)(milestoneIndex :=
                        \<lparr>proofAgent = sender, workHash = wh,
                         timestamp = block_timestamp, isVerified = False\<rparr>))\<rparr>)))"

definition verifyWorkProof :: "ledger \<Rightarrow> address \<Rightarrow> string \<Rightarrow> uint8 \<Rightarrow> error + ledger" where
  "verifyWorkProof s sender taskId milestoneIndex =
     (if \<not> hasRole s AGENT_ROLE sender
        then Inl (AccessControlUnauthorizedAccount sender AGENT_ROLE)
      else if \<not> timestamp (milestoneProofs s taskId milestoneIndex) > 0
        then Inl (Revert ''No proof'')
      else if \<not> \<not> isVerified (milestoneProofs s taskId milestoneIndex)
        then Inl (Revert ''Already verified'')
      else
        Inr (emit (WorkProofVerified taskId milestoneIndex)
               (s\<lparr>milestoneProofs := (milestoneProofs s)(taskId :=
                     (milestoneProofs s taskId)(milestoneIndex :=
                        (milestoneProofs s taskId milestoneIndex)\<lparr>isVerified := True\<rparr>))\<rparr>)))"

text \<open>
  \<open>releaseMilestone\<close>. \<open>milestoneAmount\<close> is the amount the source computes before it
  writes anything: the truncated quotient, replaced by \<open>totalAmount - paidAmount\<close> when
  the index is \<open>totalMilestones - 1\<close>.
\<close>

definition milestoneAmount :: "Escrow \<Rightarrow> uint8 \<Rightarrow> error + uint256" where
  "milestoneAmount escrow milestoneIndex =
     (case checked_div (totalAmount escrow) (unat (totalMilestones escrow)) of
        Inl e \<Rightarrow> Inl e
      | Inr q \<Rightarrow>
          (case checked_sub8 (totalMilestones escrow) 1 of
             Inl e \<Rightarrow> Inl e
           | Inr lastIndex \<Rightarrow>
               if milestoneIndex = lastIndex
               then checked_sub (totalAmount escrow) (paidAmount escrow)
               else Inr q))"

definition releaseMilestone :: "ledger \<Rightarrow> address \<Rightarrow> string \<Rightarrow> uint8 \<Rightarrow> error + ledger" where
  "releaseMilestone s sender taskId milestoneIndex =
     (let escrow = escrows s taskId in
      if \<not> hasRole s AGENT_ROLE sender
        then Inl (AccessControlUnauthorizedAccount sender AGENT_ROLE)
      else if \<not> isActive escrow then Inl (Revert ''Not active'')
      else if \<not> disputeStatus escrow = NONE then Inl (Revert ''In dispute'')
      else if \<not> milestoneIndex = milestonesCompleted escrow then Inl (Revert ''Sequence error'')
      else if \<not> isVerified (milestoneProofs s taskId milestoneIndex) then Inl (Revert ''Not verified'')
      else
        (case milestoneAmount escrow milestoneIndex of
           Inl e \<Rightarrow> Inl e
         | Inr amount \<Rightarrow>
        (case checked_add (paidAmount escrow) amount of
           Inl e \<Rightarrow> Inl e
         | Inr paid \<Rightarrow>
        (case checked_add8 (milestonesCompleted escrow) 1 of
           Inl e \<Rightarrow> Inl e
         | Inr done \<Rightarrow>
             let escrow1 = escrow\<lparr>paidAmount := paid, milestonesCompleted := done\<rparr>;
                 s1 = s\<lparr>escrows := (escrows s)(taskId := escrow1)\<rparr>;
                 s2 = (if milestonesCompleted escrow1 = totalMilestones escrow1
                       then emit (EscrowCompleted taskId)
                              (updateReputation (agent escrow1) True
                                 (s1\<lparr>escrows := (escrows s1)(taskId :=
                                        escrow1\<lparr>isActive := False, isCompleted := True\<rparr>)\<rparr>))
                       else s1)
             in (case token_transfer (this s2) (agent escrow1) amount s2 of
                   Inl e \<Rightarrow> Inl e
                 | Inr s3 \<Rightarrow> Inr (emit (MilestoneReleased taskId milestoneIndex amount) s3))))))"

definition raiseDispute :: "ledger \<Rightarrow> address \<Rightarrow> string \<Rightarrow> error + ledger" where
  "raiseDispute s sender taskId =
     (let escrow = escrows s taskId in
      if \<not> isActive escrow then Inl (Revert ''Not active'')
      else if \<not> (sender = payer escrow \<or> sender = agent escrow) then Inl (Revert ''Not authorized'')
      else
        Inr (emit (DisputeRaised taskId sender)
               (s\<lparr>escrows := (escrows s)(taskId := escrow\<lparr>disputeStatus := OPEN\<rparr>)\<rparr>)))"

definition resolveDispute :: "ledger \<Rightarrow> address \<Rightarrow> string \<Rightarrow> DisputeStatus \<Rightarrow> error + ledger" where
  "resolveDispute s sender taskId resolution =
     (let escrow = escrows s taskId in
      if \<not> hasRole s JUDGE_ROLE sender
        then Inl (AccessControlUnauthorizedAccount sender JUDGE_ROLE)
      else if \<not> disputeStatus escrow = OPEN then Inl (Revert ''No open dispute'')
      else
        (case checked_sub (totalAmount escrow) (paidAmount escrow) of
           Inl e \<Rightarrow> Inl e
         | Inr remaining \<Rightarrow>
             let escrow1 = escrow\<lparr>isActive := False, disputeStatus := resolution\<rparr>;
                 s1 = s\<lparr>escrows := (escrows s)(taskId := escrow1)\<rparr>;
                 r = (if resolution = RESOLVED_FULL then
                        (case token_transfer (this s1) (agent escrow1) remaining s1 of
                           Inl e \<Rightarrow> Inl e
                         | Inr s2 \<Rightarrow> Inr (updateReputation (agent escrow1) True s2))
                      else if resolution = REFUNDED then
                        (case token_transfer (this s1) (payer escrow1) remaining s1 of
                           Inl e \<Rightarrow> Inl e
                         | Inr s2 \<Rightarrow> Inr (updateReputation (agent escrow1) False s2))
                      else if resolution = RESOLVED_PARTIAL then
                        (let half = remaining div 2 in
                         case token_transfer (this s1) (agent escrow1) half s1 of
                           Inl e \<Rightarrow> Inl e
                         | Inr s2 \<Rightarrow>
                             (case checked_sub remaining half of
                                Inl e \<Rightarrow> Inl e
                              | Inr rest \<Rightarrow> token_transfer (this s2) (payer escrow1) rest s2))
                      else Inr s1)
             in (case r of
                   Inl e \<Rightarrow> Inl e
                 | Inr s3 \<Rightarrow> Inr (emit (DisputeResolved taskId resolution) s3))))"

definition emergencyRefund :: "ledger \<Rightarrow> address \<Rightarrow> string \<Rightarrow> error + ledger" where
  "emergencyRefund s sender taskId =
     (let escrow = escrows s taskId in
      if \<not> hasRole s DEFAULT_ADMIN_ROLE sender
        then Inl (AccessControlUnauthorizedAccount sender DEFAULT_ADMIN_ROLE)
      else if \<not> isActive escrow then Inl (Revert ''Not active'')
      else
        (case checked_sub (totalAmount escrow) (paidAmount escrow) of
           Inl e \<Rightarrow> Inl e
         | Inr remaining \<Rightarrow>
             let escrow1 = escrow\<lparr>isActive := False, isCompleted := False\<rparr>;
                 s1 = s\<lparr>escrows := (escrows s)(taskId := escrow1)\<rparr>
             in (case token_transfer (this s1) (payer escrow1) remaining s1 of
                   Inl e \<Rightarrow> Inl e
                 | Inr s2 \<Rightarrow> Inr (emit (EscrowCancelled taskId (payer escrow1) remaining) s2))))"

subsection \<open>Transactions and reachable states\<close>

text \<open>
  A transaction is one external call. The token is a contract of its own: between two
  calls of the ledger any account may move tokens or change allowances, which
  \<open>TokenActivity\<close> stands for (it may replace the token's state by any other). The
  ledger also inherits the role administration of AccessControl (\<open>grantRole\<close>,
  \<open>revokeRole\<close>, \<open>renounceRole\<close>), which \<open>RoleActivity\<close> stands for (it may replace the
  role table by any other).
\<close>

datatype call =
    CreateEscrow address string address uint256 uint8
  | SubmitWorkProof address uint256 string uint8 bytes32
  | VerifyWorkProof address string uint8
  | ReleaseMilestone address string uint8
  | RaiseDispute address string
  | ResolveDispute address string DisputeStatus
  | EmergencyRefund address string
  | GrantAgentRole address address
  | GrantJudgeRole address address
  | TokenActivity "address \<Rightarrow> uint256" "address \<Rightarrow> address \<Rightarrow> uint256"
  | RoleActivity "role \<Rightarrow> address \<Rightarrow> bool"

fun dispatch :: "ledger \<Rightarrow> call \<Rightarrow> error + ledger" where
  "dispatch s (CreateEscrow sender taskId ag amount milestones) = createEscrow s sender taskId ag amount milestones"
| "dispatch s (SubmitWorkProof sender ts taskId i wh) = submitWorkProof s sender ts taskId i wh"
| "dispatch s (VerifyWorkProof sender taskId i) = verifyWorkProof s sender taskId i"
| "dispatch s (ReleaseMilestone sender taskId i) = releaseMilestone s sender taskId i"
| "dispatch s (RaiseDispute sender taskId) = raiseDispute s sender taskId"
| "dispatch s (ResolveDispute sender taskId resolution) = resolveDispute s sender taskId resolution"
| "dispatch s (EmergencyRefund sender taskId) = emergencyRefund s sender taskId"
| "dispatch s (GrantAgentRole sender a) = grantAgentRole s sender a"
| "dispatch s (GrantJudgeRole sender a) = grantJudgeRole s sender a"
| "dispatch s (TokenActivity bal allow) = Inr (s\<lparr>balances := bal, allowances := allow\<rparr>)"
| "dispatch s (RoleActivity table) = Inr (s\<lparr>roles := table\<rparr>)"

text \<open>A reverted transaction leaves the state as it was.\<close>

definition transact :: "ledger \<Rightarrow> call \<Rightarrow> ledger" where
  "transact s c = (case dispatch s c of Inl e \<Rightarrow> s | Inr s' \<Rightarrow> s')"

fun run :: "ledger \<Rightarrow> call list \<Rightarrow> ledger" where
  "run s [] = s"
| "run s (c # cs) = run (transact s c) cs"

subsection \<open>What the log says\<close>

text \<open>The token transfers of a log, oldest first: sender, receiver, amount.\<close>

fun payments :: "event list \<Rightarrow> (address \<times> address \<times> uint256) list" where
  "payments [] = []"
| "payments (Transfer f t v # es) = (f, t, v) # payments es"
| "payments (_ # es) = payments es"

text \<open>The milestone releases of a task in a log, oldest first: index and amount.\<close>

fun releases :: "string \<Rightarrow> event list \<Rightarrow> (uint8 \<times> uint256) list" where
  "releases tid [] = []"
| "releases tid (MilestoneReleased t i a # es) = (if t = tid then (i, a) # releases tid es else releases tid es)"
| "releases tid (_ # es) = releases tid es"

text \<open>
  The sum of the amounts released for the escrow that a task has now: the amounts of
  the \<open>MilestoneReleased\<close> events of the task that follow its latest \<open>EscrowCreated\<close>.
\<close>

fun account :: "string \<Rightarrow> event \<Rightarrow> uint256 \<Rightarrow> uint256" where
  "account tid (EscrowCreated t p a v m) acc = (if t = tid then 0 else acc)"
| "account tid (MilestoneReleased t i v) acc = (if t = tid then acc + v else acc)"
| "account tid _ acc = acc"

definition releasedSoFar :: "string \<Rightarrow> event list \<Rightarrow> uint256" where
  "releasedSoFar tid evs = fold (account tid) evs 0"

text \<open>\<open>quiet P s cs\<close>: running \<open>cs\<close> from \<open>s\<close>, no call that satisfies \<open>P\<close> succeeds.\<close>

definition succeeds :: "ledger \<Rightarrow> call \<Rightarrow> bool" where
  "succeeds s c = (case dispatch s c of Inl e \<Rightarrow> False | Inr s' \<Rightarrow> True)"

fun quiet :: "(call \<Rightarrow> bool) \<Rightarrow> ledger \<Rightarrow> call list \<Rightarrow> bool" where
  "quiet P s [] = True"
| "quiet P s (c # cs) = (\<not> (P c \<and> succeeds s c) \<and> quiet P (transact s c) cs)"

fun creates :: "string \<Rightarrow> call \<Rightarrow> bool" where
  "creates tid (CreateEscrow sender t ag amount milestones) = (t = tid)"
| "creates tid _ = False"

fun settles :: "string \<Rightarrow> call \<Rightarrow> bool" where
  "settles tid (ResolveDispute sender t resolution) = (t = tid)"
| "settles tid c = creates tid c"

text \<open>
  The payout rule in the words of the specification: the truncated quotient, except
  that the final milestone (index \<open>totalMilestones - 1\<close>) receives
  \<open>totalAmount - paidAmount\<close>.
\<close>

definition spec_payout :: "Escrow \<Rightarrow> uint8 \<Rightarrow> uint256" where
  "spec_payout e i = (if i = totalMilestones e - 1 then totalAmount e - paidAmount e
                      else totalAmount e div unat (totalMilestones e))"

subsection \<open>Invariants of an escrow\<close>

definition escrow_ok :: "Escrow \<Rightarrow> bool" where
  "escrow_ok e \<longleftrightarrow>
     paidAmount e \<le> totalAmount e \<and>
     milestonesCompleted e \<le> totalMilestones e \<and>
     (isActive e \<longrightarrow>
        milestonesCompleted e < totalMilestones e \<and>
        paidAmount e = unat (milestonesCompleted e) * (totalAmount e div unat (totalMilestones e))) \<and>
     (isCompleted e \<longrightarrow> \<not> isActive e \<and> disputeStatus e = NONE)"

definition ledger_ok :: "ledger \<Rightarrow> bool" where
  "ledger_ok s \<longleftrightarrow>
     (\<forall>tid. escrow_ok (escrows s tid) \<and> releasedSoFar tid (events s) = paidAmount (escrows s tid))"

subsection \<open>A deployment used in the examples\<close>

text \<open>
  Account 9 deploys the ledger at address 7 and holds the three roles; account 1 is a
  payer with 1000 tokens and an allowance of 1000 for the ledger; account 2 is an agent.
\<close>

definition demo0 :: ledger where
  "demo0 = constructor 9 7 ((\<lambda>_. 0)(1 := 1000)) ((\<lambda>_ _. 0)(1 := (\<lambda>_. 0)(7 := 1000)))"

text \<open>An escrow of 100 in three milestones, each proved, verified and released.\<close>

definition demo_calls :: "call list" where
  "demo_calls =
     [CreateEscrow 1 ''T1'' 2 100 3,
      SubmitWorkProof 2 1700000000 ''T1'' 0 11,
      VerifyWorkProof 9 ''T1'' 0,
      ReleaseMilestone 9 ''T1'' 0,
      SubmitWorkProof 2 1700000100 ''T1'' 1 12,
      VerifyWorkProof 9 ''T1'' 1,
      ReleaseMilestone 9 ''T1'' 1,
      SubmitWorkProof 2 1700000200 ''T1'' 2 13,
      VerifyWorkProof 9 ''T1'' 2,
      ReleaseMilestone 9 ''T1'' 2]"

text \<open>
  Five escrows for agent 2, each disputed by the payer and resolved as a refund: five
  failure events for the agent, whose score starts at 50.
\<close>

definition refund_calls :: "call list" where
  "refund_calls =
     [CreateEscrow 1 ''R1'' 2 100 1, RaiseDispute 1 ''R1'', ResolveDispute 9 ''R1'' REFUNDED,
      CreateEscrow 1 ''R2'' 2 100 1, RaiseDispute 1 ''R2'', ResolveDispute 9 ''R2'' REFUNDED,
      CreateEscrow 1 ''R3'' 2 100 1, RaiseDispute 1 ''R3'', ResolveDispute 9 ''R3'' REFUNDED,
      CreateEscrow 1 ''R4'' 2 100 1, RaiseDispute 1 ''R4'', ResolveDispute 9 ''R4'' REFUNDED,
      CreateEscrow 1 ''R5'' 2 100 1, RaiseDispute 1 ''R5'', ResolveDispute 9 ''R5'' REFUNDED]"

text \<open>
  A dispute that is never resolved: the payer creates an escrow, the agent's first proof
  is verified, the payer raises a dispute, the administrator refunds the escrow, and
  the payer creates an escrow for the same task again.
\<close>

definition dispute_calls :: "call list" where
  "dispute_calls =
     [CreateEscrow 1 ''T1'' 2 100 3,
      SubmitWorkProof 2 1700000000 ''T1'' 0 11,
      VerifyWorkProof 9 ''T1'' 0,
      RaiseDispute 1 ''T1'',
      EmergencyRefund 9 ''T1'',
      CreateEscrow 1 ''T1'' 2 100 3]"

text \<open>
  A task used twice: an escrow is cancelled by emergency refund and created again; an
  escrow is disputed, resolved as a refund, and created again; an escrow is disputed,
  resolved with the status \<open>NONE\<close>, and created again.
\<close>

definition cancel_calls :: "call list" where
  "cancel_calls =
     [CreateEscrow 1 ''T1'' 2 100 3,
      EmergencyRefund 9 ''T1'',
      CreateEscrow 1 ''T1'' 2 50 1]"

definition settle_calls :: "call list" where
  "settle_calls =
     [CreateEscrow 1 ''T1'' 2 100 3,
      RaiseDispute 2 ''T1'',
      ResolveDispute 9 ''T1'' REFUNDED,
      CreateEscrow 1 ''T1'' 2 50 1]"

definition none_calls :: "call list" where
  "none_calls =
     [CreateEscrow 1 ''T1'' 2 100 3,
      RaiseDispute 2 ''T1'',
      ResolveDispute 9 ''T1'' NONE,
      CreateEscrow 1 ''T1'' 2 50 1]"

text \<open>
  An escrow of 102 in two milestones: the first milestone is released (51), the payer
  raises a dispute, and the judge splits the remaining 51.
\<close>

definition partial_calls :: "call list" where
  "partial_calls =
     [CreateEscrow 1 ''T1'' 2 102 2,
      SubmitWorkProof 2 1700000000 ''T1'' 0 11,
      VerifyWorkProof 9 ''T1'' 0,
      ReleaseMilestone 9 ''T1'' 0,
      RaiseDispute 1 ''T1'',
      ResolveDispute 9 ''T1'' RESOLVED_PARTIAL]"

section \<open>The retry loop of the executor (src/agents/EscrowAgent.ts)\<close>

text \<open>
  \<open>executeTransaction\<close> appends a callback to the promise \<open>mutationQueue\<close> and awaits
  it. The callback runs the retry loop around \<open>operation\<close>, the closure of the call
  site; at every call site the closure first awaits \<open>getTxOptions\<close> and then sends the
  contract call with the options it got. What the chain answers is not part of the
  program: an \<open>operation\<close> below carries these answers, indexed by the number of the
  invocation within the loop. The model covers one call of \<open>executeTransaction\<close> at a
  time: the loop's invocations and what it returns or throws. The waits between
  invocations (\<open>setTimeout\<close>, with a delay computed in floating point from
  \<open>Math.random\<close>) and the scheduling of several pending calls are not modelled.
\<close>

record js_error =
  code :: "string option"
  message :: "string option"

text \<open>\<open>String.prototype.includes\<close>.\<close>

fun str_includes :: "string \<Rightarrow> string \<Rightarrow> bool" where
  "str_includes [] needle = (needle = [])"
| "str_includes (c # cs) needle = (take (length needle) (c # cs) = needle \<or> str_includes cs needle)"

definition isNonceError :: "js_error \<Rightarrow> bool" where
  "isNonceError error \<longleftrightarrow>
     code error = Some ''NONCE_EXPIRED'' \<or>
     (case message error of None \<Rightarrow> False | Some m \<Rightarrow> m \<noteq> [] \<and> str_includes m ''nonce'')"

record tx_options =
  nonce :: "nat option"

text \<open>
  \<open>getTxOptions\<close>, given what \<open>provider.getTransactionCount(address, 'latest')\<close> answers:
  the latest confirmed nonce, or no nonce at all when the provider call throws.
\<close>

definition getTxOptions :: "js_error + nat \<Rightarrow> tx_options" where
  "getTxOptions latest = (case latest of Inr n \<Rightarrow> \<lparr>nonce = Some n\<rparr> | Inl e \<Rightarrow> \<lparr>nonce = None\<rparr>)"

text \<open>
  The answers of the outside world during the invocations of one operation: the
  provider's transaction count, and the outcome of sending the call with given options
  and waiting for its receipt (a receipt, which may be null, or the error thrown).
\<close>

record 'r operation =
  transactionCount :: "nat \<Rightarrow> js_error + nat"
  submit :: "nat \<Rightarrow> tx_options \<Rightarrow> js_error + 'r option"

text \<open>One invocation of the closure: resolve the options, then send.\<close>

definition invoke :: "'r operation \<Rightarrow> nat \<Rightarrow> js_error + 'r option" where
  "invoke opn k = submit opn k (getTxOptions (transactionCount opn k))"

datatype 'r settled = Returned "'r option" | Thrown js_error

definition maxAttempts :: nat where
  "maxAttempts = 5"

text \<open>
  The loop, from a given value of \<open>attempts\<close>: what it returns or throws, and the
  invocations it made, each with its number and the options it sent.
\<close>

function attemptLoop :: "'r operation \<Rightarrow> nat \<Rightarrow> 'r settled \<times> (nat \<times> tx_options) list" where
  "attemptLoop opn attempts =
     (if attempts < maxAttempts then
        (let opts = getTxOptions (transactionCount opn attempts) in
         case submit opn attempts opts of
           Inr receipt \<Rightarrow> (Returned receipt, [(attempts, opts)])
         | Inl error \<Rightarrow>
             if isNonceError error \<and> attempts + 1 < maxAttempts then
               (case attemptLoop opn (attempts + 1) of
                  (result, rest) \<Rightarrow> (result, (attempts, opts) # rest))
             else (Thrown error, [(attempts, opts)]))
      else (Returned None, []))"
  by pat_completeness auto
termination
  by (relation "measure (\<lambda>(opn, attempts). maxAttempts - attempts)") auto

declare attemptLoop.simps [simp del]

text \<open>
  The promise \<open>mutationQueue\<close> when the call is made: fulfilled, or rejected with the
  error that the \<open>catch\<close> handler of an earlier call rethrew. \<open>then\<close> skips its callback
  on a rejected promise and passes the rejection on.
\<close>

datatype queue = Fulfilled | Rejected js_error

definition executeTransaction :: "queue \<Rightarrow> 'r operation \<Rightarrow> queue \<times> 'r settled \<times> (nat \<times> tx_options) list" where
  "executeTransaction mutationQueue opn =
     (case mutationQueue of
        Rejected error \<Rightarrow> (Rejected error, Thrown error, [])
      | Fulfilled \<Rightarrow>
          (case attemptLoop opn 0 of
             (Returned receipt, tr) \<Rightarrow> (Fulfilled, Returned receipt, tr)
           | (Thrown error, tr) \<Rightarrow> (Rejected error, Thrown error, tr)))"

text \<open>Examples: two nonce conflicts and then a receipt; a revert of the contract.\<close>

definition nonceTooLow :: js_error where
  "nonceTooLow = \<lparr>code = None, message = Some ''nonce too low''\<rparr>"

definition reverted :: js_error where
  "reverted = \<lparr>code = Some ''CALL_EXCEPTION'', message = Some ''execution reverted: Not active''\<rparr>"

definition retried_op :: "nat operation" where
  "retried_op = \<lparr>transactionCount = (\<lambda>k. Inr (7 + k)),
                 submit = (\<lambda>k opts. if k < 2 then Inl nonceTooLow else Inr (Some 42))\<rparr>"

definition reverted_op :: "nat operation" where
  "reverted_op = \<lparr>transactionCount = (\<lambda>k. Inr 10),
                  submit = (\<lambda>k opts. Inl reverted)\<rparr>"

section \<open>Properties of the ledger\<close>

subsection \<open>What a successful call does\<close>

lemma token_transfer_eq:
  "token_transfer from to v s =
     (if from = 0 then Inl (ERC20InvalidSender 0)
      else if to = 0 then Inl (ERC20InvalidReceiver 0)
      else if balances s from < v then Inl (ERC20InsufficientBalance from (balances s from) v)
      else Inr (s\<lparr>balances := moveTokens from to v (balances s),
                  events := events s @ [Transfer from to v]\<rparr>))"
  by (simp add: token_transfer_def token_transfer_internal_def token_update_def emit_def)

lemma token_transferFrom_D:
  assumes "token_transferFrom caller from to v s = Inr s'"
  shows "escrows s' = escrows s" "milestoneProofs s' = milestoneProofs s"
    "reputations s' = reputations s" "roles s' = roles s" "this s' = this s"
    "events s' = events s @ [Transfer from to v]"
    "balances s' = moveTokens from to v (balances s)"
    "v \<le> balances s from" "from \<noteq> 0" "to \<noteq> 0"
  using assms
  by (auto simp: token_transferFrom_def token_spendAllowance_def token_transfer_internal_def
      token_update_def emit_def Let_def split: sum.splits if_splits)

lemma one_le_word: "(1::'a::len word) \<le> n \<longleftrightarrow> n \<noteq> 0"
  by (simp add: word_le_nat_alt unat_gt_0 Suc_le_eq)

lemma updateReputation_frame:
  "escrows (updateReputation a b s) = escrows s"
  "milestoneProofs (updateReputation a b s) = milestoneProofs s"
  "roles (updateReputation a b s) = roles s"
  "this (updateReputation a b s) = this s"
  "balances (updateReputation a b s) = balances s"
  "allowances (updateReputation a b s) = allowances s"
  "events (updateReputation a b s) = events s @ [ReputationUpdated a (reputations (updateReputation a b s) a)]"
  by (simp_all add: updateReputation_def emit_def Let_def)

lemma updateReputation_value:
  "reputations (updateReputation a b s) =
     (reputations s)(a := (if b then (if reputations s a < 100 then min 100 (reputations s a + 5) else reputations s a)
                           else (if reputations s a > 10 then reputations s a - 10 else reputations s a)))"
  by (auto simp: updateReputation_def emit_def Let_def min_def)

lemma milestoneAmount_Inr:
  "milestoneAmount e i = Inr amount \<longleftrightarrow>
     totalMilestones e \<noteq> 0 \<and>
     (if i = totalMilestones e - 1
      then paidAmount e \<le> totalAmount e \<and> amount = totalAmount e - paidAmount e
      else amount = totalAmount e div unat (totalMilestones e))"
  by (auto simp: milestoneAmount_def checked_div_def checked_sub8_def checked_sub_def
      unat_eq_zero one_le_word split: sum.splits if_splits)

lemma createEscrow_D:
  assumes "createEscrow s sender taskId ag amount milestones = Inr s'"
  shows "amount > 0" "ag \<noteq> 0" "milestones \<noteq> 0"
    "\<not> isActive (escrows s taskId)" "\<not> isCompleted (escrows s taskId)"
    "escrows s' = (escrows s)(taskId :=
        \<lparr>payer = sender, agent = ag, totalAmount = amount, paidAmount = 0,
         totalMilestones = milestones, milestonesCompleted = 0,
         isActive = True, isCompleted = False, disputeStatus = NONE\<rparr>)"
    "milestoneProofs s' = milestoneProofs s" "roles s' = roles s" "this s' = this s"
    "reputations s' = (if reputations s ag = 0 then (reputations s)(ag := 50) else reputations s)"
    "balances s' = moveTokens sender (this s) amount (balances s)"
    "amount \<le> balances s sender"
    "events s' = events s @ [Transfer sender (this s) amount]
         @ (if reputations s ag = 0 then [ReputationUpdated ag 50] else [])
         @ [EscrowCreated taskId sender ag amount milestones]"
  using assms
  by (auto simp: createEscrow_def emit_def Let_def word_gt_0 token_transferFrom_D
      split: if_splits sum.splits)

lemma submitWorkProof_D:
  assumes "submitWorkProof s sender ts taskId i wh = Inr s'"
  shows "isActive (escrows s taskId)" "sender = agent (escrows s taskId)"
    "i < totalMilestones (escrows s taskId)" "timestamp (milestoneProofs s taskId i) = 0"
    "s' = s\<lparr>milestoneProofs := (milestoneProofs s)(taskId := (milestoneProofs s taskId)(i :=
               \<lparr>proofAgent = sender, workHash = wh, timestamp = ts, isVerified = False\<rparr>)),
            events := events s @ [WorkProofSubmitted taskId i sender wh]\<rparr>"
  using assms
  by (auto simp: submitWorkProof_def emit_def Let_def split: if_splits)

lemma verifyWorkProof_D:
  assumes "verifyWorkProof s sender taskId i = Inr s'"
  shows "hasRole s AGENT_ROLE sender" "timestamp (milestoneProofs s taskId i) > 0"
    "\<not> isVerified (milestoneProofs s taskId i)"
    "s' = s\<lparr>milestoneProofs := (milestoneProofs s)(taskId := (milestoneProofs s taskId)(i :=
               (milestoneProofs s taskId i)\<lparr>isVerified := True\<rparr>)),
            events := events s @ [WorkProofVerified taskId i]\<rparr>"
  using assms
  by (auto simp: verifyWorkProof_def emit_def Let_def split: if_splits)

lemma raiseDispute_D:
  assumes "raiseDispute s sender taskId = Inr s'"
  shows "isActive (escrows s taskId)"
    "sender = payer (escrows s taskId) \<or> sender = agent (escrows s taskId)"
    "s' = s\<lparr>escrows := (escrows s)(taskId := (escrows s taskId)\<lparr>disputeStatus := OPEN\<rparr>),
            events := events s @ [DisputeRaised taskId sender]\<rparr>"
  using assms
  by (auto simp: raiseDispute_def emit_def Let_def split: if_splits)

lemma releaseMilestone_D:
  assumes "releaseMilestone s sender taskId i = Inr s'"
  shows "hasRole s AGENT_ROLE sender" "isActive (escrows s taskId)"
    "disputeStatus (escrows s taskId) = NONE" "i = milestonesCompleted (escrows s taskId)"
    "isVerified (milestoneProofs s taskId i)" "unat i + 1 < 256"
    "\<exists>amount. milestoneAmount (escrows s taskId) i = Inr amount \<and>
        amount \<le> balances s (this s) \<and>
        balances s' = moveTokens (this s) (agent (escrows s taskId)) amount (balances s) \<and>
        escrows s' = (escrows s)(taskId :=
          (if i + 1 = totalMilestones (escrows s taskId)
           then (escrows s taskId)\<lparr>paidAmount := paidAmount (escrows s taskId) + amount,
                  milestonesCompleted := i + 1, isActive := False, isCompleted := True\<rparr>
           else (escrows s taskId)\<lparr>paidAmount := paidAmount (escrows s taskId) + amount,
                  milestonesCompleted := i + 1\<rparr>)) \<and>
        reputations s' = (if i + 1 = totalMilestones (escrows s taskId)
           then reputations (updateReputation (agent (escrows s taskId)) True s) else reputations s) \<and>
        events s' = events s
           @ (if i + 1 = totalMilestones (escrows s taskId)
              then [ReputationUpdated (agent (escrows s taskId))
                      (reputations (updateReputation (agent (escrows s taskId)) True s) (agent (escrows s taskId))),
                    EscrowCompleted taskId]
              else [])
           @ [Transfer (this s) (agent (escrows s taskId)) amount, MilestoneReleased taskId i amount]"
    "milestoneProofs s' = milestoneProofs s" "roles s' = roles s" "this s' = this s"
    "allowances s' = allowances s"
  using assms
  unfolding releaseMilestone_def Let_def
  by (auto simp: checked_add_def checked_add8_def token_transfer_eq emit_def updateReputation_frame
      updateReputation_value split: sum.splits if_splits)

lemma resolveDispute_D:
  assumes "resolveDispute s sender taskId resolution = Inr s'"
  shows "hasRole s JUDGE_ROLE sender" "disputeStatus (escrows s taskId) = OPEN"
    "paidAmount (escrows s taskId) \<le> totalAmount (escrows s taskId)"
    "escrows s' = (escrows s)(taskId := (escrows s taskId)\<lparr>isActive := False, disputeStatus := resolution\<rparr>)"
    "milestoneProofs s' = milestoneProofs s" "roles s' = roles s" "this s' = this s"
    "allowances s' = allowances s"
  using assms
  unfolding resolveDispute_def Let_def
  by (auto simp: checked_sub_def token_transfer_eq emit_def updateReputation_frame
      split: sum.splits if_splits)

lemma emergencyRefund_D:
  assumes "emergencyRefund s sender taskId = Inr s'"
  shows "hasRole s DEFAULT_ADMIN_ROLE sender" "isActive (escrows s taskId)"
    "paidAmount (escrows s taskId) \<le> totalAmount (escrows s taskId)"
    "s' = s\<lparr>escrows := (escrows s)(taskId := (escrows s taskId)\<lparr>isActive := False, isCompleted := False\<rparr>),
            balances := moveTokens (this s) (payer (escrows s taskId))
                          (totalAmount (escrows s taskId) - paidAmount (escrows s taskId)) (balances s),
            events := events s @ [Transfer (this s) (payer (escrows s taskId))
                          (totalAmount (escrows s taskId) - paidAmount (escrows s taskId)),
                        EscrowCancelled taskId (payer (escrows s taskId))
                          (totalAmount (escrows s taskId) - paidAmount (escrows s taskId))]\<rparr>"
  using assms
  unfolding emergencyRefund_def Let_def
  by (auto simp: checked_sub_def token_transfer_eq emit_def split: sum.splits if_splits)

subsection \<open>The invariant holds in every reachable state\<close>

lemma releasedSoFar_append:
  "releasedSoFar tid (xs @ ys) = fold (account tid) ys (releasedSoFar tid xs)"
  by (simp add: releasedSoFar_def)

lemma fold_account_no_create:
  "(\<forall>p a v m. EscrowCreated tid p a v m \<notin> set ys) \<Longrightarrow>
     fold (account tid) ys acc = acc + sum_list (map snd (releases tid ys))"
proof (induction ys arbitrary: acc)
  case Nil
  then show ?case by simp
next
  case (Cons e ys)
  have e: "\<And>p a v m. e \<noteq> EscrowCreated tid p a v m"
    using Cons.prems by (metis list.set_intros(1))
  have rest: "\<forall>p a v m. EscrowCreated tid p a v m \<notin> set ys"
    using Cons.prems by (metis list.set_intros(2))
  note ih = Cons.IH[OF rest]
  show ?case
  proof (cases e)
    case (EscrowCreated t p a v m)
    then have "t \<noteq> tid" using e by blast
    then show ?thesis using EscrowCreated by (simp add: ih)
  qed (simp_all add: ih)
qed

lemma releasedSoFar_since_created:
  "(\<forall>p a v m. EscrowCreated tid p a v m \<notin> set ys) \<Longrightarrow>
     releasedSoFar tid (xs @ EscrowCreated tid p' a' v' m' # ys) = sum_list (map snd (releases tid ys))"
  by (simp add: releasedSoFar_def fold_account_no_create)

lemma escrow_okI:
  assumes "paidAmount e \<le> totalAmount e" "milestonesCompleted e \<le> totalMilestones e"
    "isActive e \<Longrightarrow> milestonesCompleted e < totalMilestones e \<and>
        paidAmount e = unat (milestonesCompleted e) * (totalAmount e div unat (totalMilestones e))"
    "isCompleted e \<Longrightarrow> \<not> isActive e \<and> disputeStatus e = NONE"
  shows "escrow_ok e"
  using assms by (auto simp: escrow_ok_def)

lemma ledger_ok_constructor: "ledger_ok (constructor deployer self bal allow)"
  by (simp add: ledger_ok_def escrow_ok_def constructor_def grantRole_internal_def releasedSoFar_def)

lemma ledger_ok_createEscrow:
  assumes ok: "ledger_ok s" and c: "createEscrow s sender taskId ag amount milestones = Inr s'"
  shows "ledger_ok s'"
  unfolding ledger_ok_def
proof (intro allI conjI)
  fix tid
  show "escrow_ok (escrows s' tid)"
    using ok createEscrow_D(3)[OF c]
    by (auto simp: createEscrow_D(6)[OF c] ledger_ok_def escrow_ok_def word_gt_0)
  show "releasedSoFar tid (events s') = paidAmount (escrows s' tid)"
    using ok
    by (auto simp: createEscrow_D(6)[OF c] createEscrow_D(13)[OF c] ledger_ok_def releasedSoFar_append)
qed

lemma div_mult_bound:
  fixes t :: nat
  assumes "k \<le> n"
  shows "k * (t div n) \<le> t"
proof -
  have "k * (t div n) \<le> n * (t div n)" using assms by (simp add: mult_le_mono1)
  also have "\<dots> \<le> t" by simp
  finally show ?thesis .
qed

lemma word_succ_less:
  fixes i n :: "'a::len word"
  assumes "i < n" "i + 1 \<noteq> n"
  shows "i + 1 < n" "unat (i + 1) = unat i + 1"
proof -
  have lt: "unat i < unat n" using assms(1) by (simp add: word_less_nat_alt)
  have "unat n < 2 ^ LENGTH('a)" by simp
  then have b: "unat i + 1 < 2 ^ LENGTH('a)" using lt by linarith
  then show u: "unat (i + 1) = unat i + 1" by (simp add: unat_word_ariths)
  have "unat (i + 1) \<noteq> unat n" using assms(2) by (simp add: word_unat_eq_iff)
  then show "i + 1 < n" using lt u by (simp add: word_less_nat_alt)
qed

lemma word_succ_eq_last:
  fixes i n :: "'a::len word"
  shows "i + 1 = n \<longleftrightarrow> i = n - 1"
  by (metis add_diff_cancel_right' diff_add_cancel)

lemma ledger_ok_releaseMilestone:
  assumes ok: "ledger_ok s" and c: "releaseMilestone s sender taskId i = Inr s'"
  shows "ledger_ok s'"
proof -
  let ?e = "escrows s taskId"
  from releaseMilestone_D(7)[OF c] obtain amount where
    am: "milestoneAmount ?e i = Inr amount"
    and es: "escrows s' = (escrows s)(taskId :=
          (if i + 1 = totalMilestones ?e
           then ?e\<lparr>paidAmount := paidAmount ?e + amount,
                  milestonesCompleted := i + 1, isActive := False, isCompleted := True\<rparr>
           else ?e\<lparr>paidAmount := paidAmount ?e + amount, milestonesCompleted := i + 1\<rparr>))"
    and ev: "events s' = events s
           @ (if i + 1 = totalMilestones ?e
              then [ReputationUpdated (agent ?e)
                      (reputations (updateReputation (agent ?e) True s) (agent ?e)),
                    EscrowCompleted taskId]
              else [])
           @ [Transfer (this s) (agent ?e) amount, MilestoneReleased taskId i amount]"
    by blast
  have act: "isActive ?e" and idx: "i = milestonesCompleted ?e" and st: "disputeStatus ?e = NONE"
    using releaseMilestone_D[OF c] by auto
  have eok: "escrow_ok ?e" and paid: "releasedSoFar taskId (events s) = paidAmount ?e"
    using ok by (auto simp: ledger_ok_def)
  have lt: "i < totalMilestones ?e"
    and p: "paidAmount ?e = unat i * (totalAmount ?e div unat (totalMilestones ?e))"
    using eok act idx by (auto simp: escrow_ok_def)
  have new_ok: "escrow_ok (escrows s' taskId)"
  proof (cases "i + 1 = totalMilestones ?e")
    case True
    then have "i = totalMilestones ?e - 1" by (simp add: word_succ_eq_last)
    then have "paidAmount ?e \<le> totalAmount ?e" "amount = totalAmount ?e - paidAmount ?e"
      using am by (auto simp: milestoneAmount_Inr)
    then show ?thesis using True st by (simp add: es escrow_ok_def)
  next
    case False
    then have ne: "i \<noteq> totalMilestones ?e - 1" by (simp add: word_succ_eq_last)
    then have a: "amount = totalAmount ?e div unat (totalMilestones ?e)"
      using am by (auto simp: milestoneAmount_Inr)
    have s1: "i + 1 < totalMilestones ?e" and s2: "unat (i + 1) = unat i + 1"
      using word_succ_less[OF lt False] by auto
    have "unat i + 1 \<le> unat (totalMilestones ?e)" using s1 s2 by (simp add: word_less_nat_alt)
    then have bound: "(unat i + 1) * (totalAmount ?e div unat (totalMilestones ?e)) \<le> totalAmount ?e"
      by (rule div_mult_bound)
    have np: "paidAmount ?e + amount = (unat i + 1) * (totalAmount ?e div unat (totalMilestones ?e))"
      using p a by simp
    show ?thesis
      using False eok act s1 s2 np bound
      by (auto simp: es escrow_ok_def)
  qed
  show ?thesis
    unfolding ledger_ok_def
  proof (intro allI conjI)
    fix tid
    show "escrow_ok (escrows s' tid)"
    proof (cases "tid = taskId")
      case True then show ?thesis using new_ok by simp
    next
      case False then show ?thesis using ok by (simp add: es ledger_ok_def)
    qed
    show "releasedSoFar tid (events s') = paidAmount (escrows s' tid)"
      using ok by (auto simp: es ev ledger_ok_def releasedSoFar_append)
  qed
qed

lemma ledger_ok_raiseDispute:
  assumes ok: "ledger_ok s" and c: "raiseDispute s sender taskId = Inr s'"
  shows "ledger_ok s'"
  using ok raiseDispute_D(1)[OF c]
  by (auto simp: raiseDispute_D(3)[OF c] ledger_ok_def escrow_ok_def releasedSoFar_append)

lemma resolveDispute_events:
  assumes "resolveDispute s sender taskId resolution = Inr s'"
  shows "releasedSoFar tid (events s') = releasedSoFar tid (events s)"
  using assms
  unfolding resolveDispute_def Let_def
  by (auto simp: checked_sub_def token_transfer_eq emit_def updateReputation_frame releasedSoFar_append
      split: sum.splits if_splits)

lemma ledger_ok_resolveDispute:
  assumes ok: "ledger_ok s" and c: "resolveDispute s sender taskId resolution = Inr s'"
  shows "ledger_ok s'"
  using ok resolveDispute_D(2)[OF c]
  by (auto simp: resolveDispute_D(4)[OF c] resolveDispute_events[OF c] ledger_ok_def escrow_ok_def)

lemma ledger_ok_emergencyRefund:
  assumes ok: "ledger_ok s" and c: "emergencyRefund s sender taskId = Inr s'"
  shows "ledger_ok s'"
  using ok emergencyRefund_D(2)[OF c]
  by (auto simp: emergencyRefund_D(4)[OF c] ledger_ok_def escrow_ok_def releasedSoFar_append)

lemma ledger_ok_dispatch:
  assumes ok: "ledger_ok s" and c: "dispatch s c = Inr s'"
  shows "ledger_ok s'"
proof (cases c)
  case (CreateEscrow x11 x12 x13 x14 x15)
  then show ?thesis using ok c by (auto intro: ledger_ok_createEscrow)
next
  case (SubmitWorkProof x21 x22 x23 x24 x25)
  then show ?thesis using ok c
    by (auto simp: ledger_ok_def releasedSoFar_append dest!: submitWorkProof_D(5))
next
  case (VerifyWorkProof x31 x32 x33)
  then show ?thesis using ok c
    by (auto simp: ledger_ok_def releasedSoFar_append dest!: verifyWorkProof_D(4))
next
  case (ReleaseMilestone x41 x42 x43)
  then show ?thesis using ok c by (auto intro: ledger_ok_releaseMilestone)
next
  case (RaiseDispute x51 x52)
  then show ?thesis using ok c by (auto intro: ledger_ok_raiseDispute)
next
  case (ResolveDispute x61 x62 x63)
  then show ?thesis using ok c by (auto intro: ledger_ok_resolveDispute)
next
  case (EmergencyRefund x71 x72)
  then show ?thesis using ok c by (auto intro: ledger_ok_emergencyRefund)
next
  case (GrantAgentRole x81 x82)
  then show ?thesis using ok c
    by (auto simp: ledger_ok_def grantAgentRole_def grantRole_internal_def split: if_splits)
next
  case (GrantJudgeRole x91 x92)
  then show ?thesis using ok c
    by (auto simp: ledger_ok_def grantJudgeRole_def grantRole_internal_def split: if_splits)
next
  case (TokenActivity x101 x102)
  then show ?thesis using ok c by (auto simp: ledger_ok_def)
next
  case (RoleActivity x111)
  then show ?thesis using ok c by (auto simp: ledger_ok_def)
qed

lemma ledger_ok_transact: "ledger_ok s \<Longrightarrow> ledger_ok (transact s c)"
  by (auto simp: transact_def split: sum.splits intro: ledger_ok_dispatch)

lemma ledger_ok_run: "ledger_ok s \<Longrightarrow> ledger_ok (run s cs)"
  by (induction cs arbitrary: s) (auto intro: ledger_ok_transact)

lemma run_append: "run s (cs @ ds) = run (run s cs) ds"
  by (induction cs arbitrary: s) auto

subsection \<open>Payouts\<close>

lemma payments_append: "payments (xs @ ys) = payments xs @ payments ys"
  by (induction xs rule: payments.induct) auto

lemma releases_append: "releases tid (xs @ ys) = releases tid xs @ releases tid ys"
  by (induction tid xs rule: releases.induct) auto

lemma releaseMilestone_pays:
  assumes c: "releaseMilestone s sender taskId i = Inr s'"
  shows "i = totalMilestones (escrows s taskId) - 1 \<longrightarrow> paidAmount (escrows s taskId) \<le> totalAmount (escrows s taskId)"
    and "payments (events s') = payments (events s) @ [(this s, agent (escrows s taskId), spec_payout (escrows s taskId) i)]"
    and "releases taskId (events s') = releases taskId (events s) @ [(i, spec_payout (escrows s taskId) i)]"
    and "balances s' = moveTokens (this s) (agent (escrows s taskId)) (spec_payout (escrows s taskId) i) (balances s)"
    and "spec_payout (escrows s taskId) i \<le> balances s (this s)"
    and "paidAmount (escrows s' taskId) = paidAmount (escrows s taskId) + spec_payout (escrows s taskId) i"
    and "totalAmount (escrows s' taskId) = totalAmount (escrows s taskId)"
    and "totalMilestones (escrows s' taskId) = totalMilestones (escrows s taskId)"
    and "agent (escrows s' taskId) = agent (escrows s taskId)"
proof -
  let ?e = "escrows s taskId"
  from releaseMilestone_D(7)[OF c] obtain amount where
    am: "milestoneAmount ?e i = Inr amount"
    and le: "amount \<le> balances s (this s)"
    and bal: "balances s' = moveTokens (this s) (agent ?e) amount (balances s)"
    and es: "escrows s' = (escrows s)(taskId :=
          (if i + 1 = totalMilestones ?e
           then ?e\<lparr>paidAmount := paidAmount ?e + amount,
                  milestonesCompleted := i + 1, isActive := False, isCompleted := True\<rparr>
           else ?e\<lparr>paidAmount := paidAmount ?e + amount, milestonesCompleted := i + 1\<rparr>))"
    and ev: "events s' = events s
           @ (if i + 1 = totalMilestones ?e
              then [ReputationUpdated (agent ?e)
                      (reputations (updateReputation (agent ?e) True s) (agent ?e)),
                    EscrowCompleted taskId]
              else [])
           @ [Transfer (this s) (agent ?e) amount, MilestoneReleased taskId i amount]"
    by blast
  have a: "amount = spec_payout ?e i"
    using am by (auto simp: milestoneAmount_Inr spec_payout_def split: if_splits)
  show "i = totalMilestones ?e - 1 \<longrightarrow> paidAmount ?e \<le> totalAmount ?e"
    using am by (auto simp: milestoneAmount_Inr)
  show "payments (events s') = payments (events s) @ [(this s, agent ?e, spec_payout ?e i)]"
    by (simp add: ev a payments_append)
  show "releases taskId (events s') = releases taskId (events s) @ [(i, spec_payout ?e i)]"
    by (simp add: ev a releases_append)
  show "balances s' = moveTokens (this s) (agent ?e) (spec_payout ?e i) (balances s)"
    using bal a by simp
  show "spec_payout ?e i \<le> balances s (this s)" using le a by simp
  show "paidAmount (escrows s' taskId) = paidAmount ?e + spec_payout ?e i" by (simp add: es a)
  show "totalAmount (escrows s' taskId) = totalAmount ?e" by (simp add: es)
  show "totalMilestones (escrows s' taskId) = totalMilestones ?e" by (simp add: es)
  show "agent (escrows s' taskId) = agent ?e" by (simp add: es)
qed

lemmas demo_defs = demo0_def demo_calls_def constructor_def grantRole_internal_def transact_def
  createEscrow_def submitWorkProof_def verifyWorkProof_def releaseMilestone_def milestoneAmount_def
  raiseDispute_def resolveDispute_def emergencyRefund_def
  token_transferFrom_def token_spendAllowance_def token_transfer_internal_def token_transfer_def
  token_update_def moveTokens_def emit_def hasRole_def checked_add_def checked_sub_def checked_div_def
  checked_add8_def checked_sub8_def MAX_UINT256_def updateReputation_def Let_def

lemma demo_run:
  "releases ''T1'' (events (run demo0 demo_calls)) = [(0, 33), (1, 33), (2, 34)]"
  "payments (events (run demo0 demo_calls)) = [(1, 7, 100), (7, 2, 33), (7, 2, 33), (7, 2, 34)]"
  "balances (run demo0 demo_calls) 2 = 100"
  "balances (run demo0 demo_calls) 7 = 0"
  "paidAmount (escrows (run demo0 demo_calls) ''T1'') = 100"
  by (simp_all add: demo_defs)

lemma ledger_ok_reachable: "ledger_ok (run (constructor deployer self bal allow) cs)"
  by (simp add: ledger_ok_run ledger_ok_constructor)

lemma three_releases:
  assumes ok: "ledger_ok s0"
    and t: "totalAmount (escrows s0 tid) = 100" and n: "totalMilestones (escrows s0 tid) = 3"
    and r0: "releaseMilestone s0 a tid 0 = Inr s1"
    and r1: "releaseMilestone s1 b tid 1 = Inr s2"
    and r2: "releaseMilestone s2 c tid 2 = Inr s3"
  shows "releases tid (events s3) = releases tid (events s0) @ [(0, 33), (1, 33), (2, 34)]"
    and "payments (events s3) = payments (events s0) @
           [(this s0, agent (escrows s0 tid), 33), (this s0, agent (escrows s0 tid), 33),
            (this s0, agent (escrows s0 tid), 34)]"
    and "paidAmount (escrows s3 tid) = 100"
proof -
  have "isActive (escrows s0 tid)" "milestonesCompleted (escrows s0 tid) = 0"
    using releaseMilestone_D[OF r0] by auto
  then have p0: "paidAmount (escrows s0 tid) = 0"
    using ok by (auto simp: ledger_ok_def escrow_ok_def)
  have a0: "spec_payout (escrows s0 tid) 0 = 33" by (simp add: spec_payout_def t n)
  have p1: "paidAmount (escrows s1 tid) = 33" using releaseMilestone_pays(6)[OF r0] p0 a0 by simp
  have t1: "totalAmount (escrows s1 tid) = 100" "totalMilestones (escrows s1 tid) = 3"
    using releaseMilestone_pays(7,8)[OF r0] t n by auto
  have a1: "spec_payout (escrows s1 tid) 1 = 33" by (simp add: spec_payout_def t1)
  have p2: "paidAmount (escrows s2 tid) = 66" using releaseMilestone_pays(6)[OF r1] p1 a1 by simp
  have t2: "totalAmount (escrows s2 tid) = 100" "totalMilestones (escrows s2 tid) = 3"
    using releaseMilestone_pays(7,8)[OF r1] t1 by auto
  have a2: "spec_payout (escrows s2 tid) 2 = 34" by (simp add: spec_payout_def t2 p2)
  have th: "this s1 = this s0" "this s2 = this s0"
    using releaseMilestone_D(10)[OF r0] releaseMilestone_D(10)[OF r1] by auto
  have ag: "agent (escrows s1 tid) = agent (escrows s0 tid)" "agent (escrows s2 tid) = agent (escrows s0 tid)"
    using releaseMilestone_pays(9)[OF r0] releaseMilestone_pays(9)[OF r1] by auto
  show "releases tid (events s3) = releases tid (events s0) @ [(0, 33), (1, 33), (2, 34)]"
    using releaseMilestone_pays(3)[OF r0] releaseMilestone_pays(3)[OF r1] releaseMilestone_pays(3)[OF r2]
    by (simp add: a0 a1 a2)
  show "payments (events s3) = payments (events s0) @
           [(this s0, agent (escrows s0 tid), 33), (this s0, agent (escrows s0 tid), 33),
            (this s0, agent (escrows s0 tid), 34)]"
    using releaseMilestone_pays(2)[OF r0] releaseMilestone_pays(2)[OF r1] releaseMilestone_pays(2)[OF r2]
    by (simp add: a0 a1 a2 th ag)
  show "paidAmount (escrows s3 tid) = 100"
    using releaseMilestone_pays(6)[OF r2] p2 a2 by simp
qed

lemma this_dispatch: "dispatch s c = Inr s' \<Longrightarrow> this s' = this s"
proof (cases c)
  case (CreateEscrow x11 x12 x13 x14 x15)
  then show "dispatch s c = Inr s' \<Longrightarrow> this s' = this s" by (auto dest: createEscrow_D(9))
next
  case (SubmitWorkProof x21 x22 x23 x24 x25)
  then show "dispatch s c = Inr s' \<Longrightarrow> this s' = this s" by (auto dest!: submitWorkProof_D(5))
next
  case (VerifyWorkProof x31 x32 x33)
  then show "dispatch s c = Inr s' \<Longrightarrow> this s' = this s" by (auto dest!: verifyWorkProof_D(4))
next
  case (ReleaseMilestone x41 x42 x43)
  then show "dispatch s c = Inr s' \<Longrightarrow> this s' = this s" by (auto dest: releaseMilestone_D(10))
next
  case (RaiseDispute x51 x52)
  then show "dispatch s c = Inr s' \<Longrightarrow> this s' = this s" by (auto dest!: raiseDispute_D(3))
next
  case (ResolveDispute x61 x62 x63)
  then show "dispatch s c = Inr s' \<Longrightarrow> this s' = this s" by (auto dest: resolveDispute_D(7))
next
  case (EmergencyRefund x71 x72)
  then show "dispatch s c = Inr s' \<Longrightarrow> this s' = this s" by (auto dest!: emergencyRefund_D(4))
next
  case (GrantAgentRole x81 x82)
  then show "dispatch s c = Inr s' \<Longrightarrow> this s' = this s"
    by (auto simp: grantAgentRole_def grantRole_internal_def split: if_splits)
next
  case (GrantJudgeRole x91 x92)
  then show "dispatch s c = Inr s' \<Longrightarrow> this s' = this s"
    by (auto simp: grantJudgeRole_def grantRole_internal_def split: if_splits)
next
  case (TokenActivity x101 x102)
  then show "dispatch s c = Inr s' \<Longrightarrow> this s' = this s" by auto
next
  case (RoleActivity x111)
  then show "dispatch s c = Inr s' \<Longrightarrow> this s' = this s" by auto
qed

lemma this_transact: "this (transact s c) = this s"
  by (auto simp: transact_def split: sum.splits dest: this_dispatch)

lemma this_run_any: "this (run s cs) = this s"
  by (induction cs arbitrary: s) (auto simp: this_transact)

lemma this_run: "this (run (constructor deployer self bal allow) cs) = self"
  by (simp add: this_run_any constructor_def grantRole_internal_def)

section \<open>The claims about the ledger\<close>

lemma run_snoc: "run s (cs @ [c]) = transact (run s cs) c"
  by (simp add: run_append)

lemma demo_last_release:
  "releaseMilestone (run demo0 (take 9 demo_calls)) 9 ''T1'' 2 = Inr (run demo0 demo_calls)"
proof -
  have "\<exists>s'. releaseMilestone (run demo0 (take 9 demo_calls)) 9 ''T1'' 2 = Inr s'"
    by (simp add: demo_defs)
  then obtain s' where s': "releaseMilestone (run demo0 (take 9 demo_calls)) 9 ''T1'' 2 = Inr s'"
    by blast
  have "demo_calls = take 9 demo_calls @ [ReleaseMilestone 9 ''T1'' 2]"
    by (simp add: demo_calls_def)
  then have "run demo0 demo_calls = transact (run demo0 (take 9 demo_calls)) (ReleaseMilestone 9 ''T1'' 2)"
    by (metis run_snoc)
  also have "\<dots> = s'" by (simp add: transact_def s')
  finally show ?thesis using s' by simp
qed

lemma demo_before_last:
  "this (run demo0 (take 9 demo_calls)) = 7"
  "agent (escrows (run demo0 (take 9 demo_calls)) ''T1'') = 2"
  "totalAmount (escrows (run demo0 (take 9 demo_calls)) ''T1'') = 100"
  "paidAmount (escrows (run demo0 (take 9 demo_calls)) ''T1'') = 66"
  "totalMilestones (escrows (run demo0 (take 9 demo_calls)) ''T1'') = 3"
  by (simp_all add: demo_defs)


text \<open>
  C1. A successful \<open>releaseMilestone\<close> pays the agent the truncated quotient
  \<open>totalAmount / totalMilestones\<close>, and \<open>totalAmount - paidAmount\<close> when the index is
  \<open>totalMilestones - 1\<close>: one token transfer of that amount from the ledger to the
  agent, logged as the released amount and added to \<open>paidAmount\<close>. In every reachable
  state, three successive releases on an escrow of 100 in 3 milestones pay 33, 33, 34,
  which brings \<open>paidAmount\<close> to 100; the example deployment does so.
\<close>

theorem releaseMilestone_payout:
  "(\<forall>s sender taskId i s'. releaseMilestone s sender taskId i = Inr s' \<longrightarrow>
      (let e = escrows s taskId;
           amount = (if i = totalMilestones e - 1 then totalAmount e - paidAmount e
                     else totalAmount e div unat (totalMilestones e))
       in (i = totalMilestones e - 1 \<longrightarrow> paidAmount e \<le> totalAmount e) \<and>
          payments (events s') = payments (events s) @ [(this s, agent e, amount)] \<and>
          releases taskId (events s') = releases taskId (events s) @ [(i, amount)] \<and>
          amount \<le> balances s (this s) \<and>
          balances s' = moveTokens (this s) (agent e) amount (balances s) \<and>
          paidAmount (escrows s' taskId) = paidAmount e + amount))
   \<and> (\<forall>deployer self bal allow cs taskId a b c s1 s2 s3.
        (let s0 = run (constructor deployer self bal allow) cs in
           totalAmount (escrows s0 taskId) = 100 \<and> totalMilestones (escrows s0 taskId) = 3 \<and>
           releaseMilestone s0 a taskId 0 = Inr s1 \<and>
           releaseMilestone s1 b taskId 1 = Inr s2 \<and>
           releaseMilestone s2 c taskId 2 = Inr s3 \<longrightarrow>
           releases taskId (events s3) = releases taskId (events s0) @ [(0, 33), (1, 33), (2, 34)] \<and>
           payments (events s3) = payments (events s0) @
              [(self, agent (escrows s0 taskId), 33), (self, agent (escrows s0 taskId), 33),
               (self, agent (escrows s0 taskId), 34)] \<and>
           paidAmount (escrows s3 taskId) = 100))
   \<and> releases ''T1'' (events (run demo0 demo_calls)) = [(0, 33), (1, 33), (2, 34)]
   \<and> payments (events (run demo0 demo_calls)) = [(1, 7, 100), (7, 2, 33), (7, 2, 33), (7, 2, 34)]
   \<and> balances (run demo0 demo_calls) 2 = 100
   \<and> paidAmount (escrows (run demo0 demo_calls) ''T1'') = 100"
proof (intro conjI allI impI)
  fix s sender taskId i s'
  assume c: "releaseMilestone s sender taskId i = Inr s'"
  show "let e = escrows s taskId;
           amount = (if i = totalMilestones e - 1 then totalAmount e - paidAmount e
                     else totalAmount e div unat (totalMilestones e))
       in (i = totalMilestones e - 1 \<longrightarrow> paidAmount e \<le> totalAmount e) \<and>
          payments (events s') = payments (events s) @ [(this s, agent e, amount)] \<and>
          releases taskId (events s') = releases taskId (events s) @ [(i, amount)] \<and>
          amount \<le> balances s (this s) \<and>
          balances s' = moveTokens (this s) (agent e) amount (balances s) \<and>
          paidAmount (escrows s' taskId) = paidAmount e + amount"
    using releaseMilestone_pays[OF c]
    unfolding Let_def spec_payout_def by blast
next
  fix deployer self bal allow cs taskId a b c s1 s2 s3
  show "let s0 = run (constructor deployer self bal allow) cs in
           totalAmount (escrows s0 taskId) = 100 \<and> totalMilestones (escrows s0 taskId) = 3 \<and>
           releaseMilestone s0 a taskId 0 = Inr s1 \<and>
           releaseMilestone s1 b taskId 1 = Inr s2 \<and>
           releaseMilestone s2 c taskId 2 = Inr s3 \<longrightarrow>
           releases taskId (events s3) = releases taskId (events s0) @ [(0, 33), (1, 33), (2, 34)] \<and>
           payments (events s3) = payments (events s0) @
              [(self, agent (escrows s0 taskId), 33), (self, agent (escrows s0 taskId), 33),
               (self, agent (escrows s0 taskId), 34)] \<and>
           paidAmount (escrows s3 taskId) = 100"
    unfolding Let_def
  proof (intro impI, elim conjE)
    let ?s0 = "run (constructor deployer self bal allow) cs"
    assume h: "totalAmount (escrows ?s0 taskId) = 100" "totalMilestones (escrows ?s0 taskId) = 3"
      "releaseMilestone ?s0 a taskId 0 = Inr s1" "releaseMilestone s1 b taskId 1 = Inr s2"
      "releaseMilestone s2 c taskId 2 = Inr s3"
    have self: "this ?s0 = self" by (rule this_run)
    show "releases taskId (events s3) = releases taskId (events ?s0) @ [(0, 33), (1, 33), (2, 34)] \<and>
           payments (events s3) = payments (events ?s0) @
              [(self, agent (escrows ?s0 taskId), 33), (self, agent (escrows ?s0 taskId), 33),
               (self, agent (escrows ?s0 taskId), 34)] \<and>
           paidAmount (escrows s3 taskId) = 100"
      using three_releases[OF ledger_ok_reachable h] self by simp
  qed
qed (simp_all add: demo_run)

theorem releaseMilestone_payout_witness:
  "releaseMilestone (run demo0 (take 9 demo_calls)) 9 ''T1'' 2 = Inr (run demo0 demo_calls)
   \<and> payments (events (run demo0 demo_calls)) = payments (events (run demo0 (take 9 demo_calls))) @ [(7, 2, 34)]
   \<and> paidAmount (escrows (run demo0 demo_calls) ''T1'') = 66 + 34"
  using conjunct1[OF releaseMilestone_payout, rule_format, OF demo_last_release] demo_last_release
  by (simp add: Let_def demo_before_last)


lemma demo_create:
  "\<exists>s'. createEscrow demo0 1 ''T1'' 2 100 3 = Inr s'"
  by (simp add: demo_defs)

text \<open>
  C10. A successful \<open>createEscrow\<close> sets the reputation of the agent it names to 50
  exactly when the stored reputation is 0, and leaves a nonzero reputation, and the
  reputation of every other account, as it was.
\<close>

theorem createEscrow_reputation:
  "createEscrow s sender taskId ag amount milestones = Inr s' \<Longrightarrow>
     reputations s' ag = (if reputations s ag = 0 then 50 else reputations s ag) \<and>
     (\<forall>a. a \<noteq> ag \<longrightarrow> reputations s' a = reputations s a)"
  by (simp add: createEscrow_D(10))

theorem createEscrow_reputation_witness:
  "\<exists>s'. createEscrow demo0 1 ''T1'' 2 100 3 = Inr s' \<and> reputations demo0 2 = 0 \<and>
        reputations s' 2 = 50 \<and> reputations s' 1 = 0"
proof -
  obtain s' where c: "createEscrow demo0 1 ''T1'' 2 100 3 = Inr s'"
    using demo_create by blast
  have r: "reputations demo0 2 = 0" "reputations demo0 1 = 0"
    by (simp_all add: demo0_def constructor_def grantRole_internal_def)
  from createEscrow_reputation[OF c] r have "reputations s' 2 = 50 \<and> reputations s' 1 = 0"
    by simp
  with c r show ?thesis by blast
qed

lemma updateReputation_in_range:
  "reputations s a \<le> 100 \<Longrightarrow> reputations (updateReputation a b s) a \<le> 100"
  by (auto simp: updateReputation_value)

lemma updateReputation_success:
  "reputations s a \<le> 100 \<Longrightarrow> reputations (updateReputation a True s) a = min 100 (reputations s a + 5)"
  by (simp add: updateReputation_value)

text \<open>
  C7. At a stored score of 10 a failure event leaves the score at 10. In the example
  deployment agent 2 starts at 50; four refunds take the score to 40, 30, 20 and 10,
  and the fifth refund leaves it at 10. (A success event does add 5 up to the cap of
  100, and a score between 0 and 100 stays there: \<open>updateReputation_success\<close>,
  \<open>updateReputation_in_range\<close>.)
\<close>

theorem updateReputation_failure_at_10:
  "map (\<lambda>n. reputations (run demo0 (take n refund_calls)) 2) [1, 3, 6, 9, 12, 15] = [50, 40, 30, 20, 10, 10]
   \<and> reputations (updateReputation 2 False (run demo0 (take 12 refund_calls))) 2 = 10"
  by (simp add: demo_defs refund_calls_def)

lemma word_succ_neq: "(i::'a::len word) + 1 \<noteq> i"
  by simp

lemma release_then_escrow:
  assumes c: "releaseMilestone s sender taskId i = Inr s'"
  shows "i + 1 = totalMilestones (escrows s taskId) \<Longrightarrow> \<not> isActive (escrows s' taskId)"
    and "i + 1 \<noteq> totalMilestones (escrows s taskId) \<Longrightarrow>
           isActive (escrows s' taskId) \<and> disputeStatus (escrows s' taskId) = NONE \<and>
           milestonesCompleted (escrows s' taskId) = i + 1"
  using releaseMilestone_D(7)[OF c] releaseMilestone_D(2,3)[OF c]
  by auto

lemma releaseMilestone_unauthorized:
  "\<not> hasRole s AGENT_ROLE sender \<Longrightarrow>
     releaseMilestone s sender taskId i = Inl (AccessControlUnauthorizedAccount sender AGENT_ROLE)"
  by (simp add: releaseMilestone_def)

lemma releaseMilestone_inactive:
  "hasRole s AGENT_ROLE sender \<Longrightarrow> \<not> isActive (escrows s taskId) \<Longrightarrow>
     releaseMilestone s sender taskId i = Inl (Revert ''Not active'')"
  by (simp add: releaseMilestone_def)

lemma releaseMilestone_in_dispute:
  "hasRole s AGENT_ROLE sender \<Longrightarrow> isActive (escrows s taskId) \<Longrightarrow>
     disputeStatus (escrows s taskId) \<noteq> NONE \<Longrightarrow>
     releaseMilestone s sender taskId i = Inl (Revert ''In dispute'')"
  by (simp add: releaseMilestone_def)

lemma releaseMilestone_out_of_order:
  "hasRole s AGENT_ROLE sender \<Longrightarrow> isActive (escrows s taskId) \<Longrightarrow>
     disputeStatus (escrows s taskId) = NONE \<Longrightarrow> i \<noteq> milestonesCompleted (escrows s taskId) \<Longrightarrow>
     releaseMilestone s sender taskId i = Inl (Revert ''Sequence error'')"
  by (simp add: releaseMilestone_def)

lemma transact_failed: "dispatch s c = Inl e \<Longrightarrow> transact s c = s"
  by (simp add: transact_def)

text \<open>
  C4 (as amended). A successful \<open>releaseMilestone\<close> has an index equal to
  \<open>milestonesCompleted\<close>. A second call with the same index, by any caller, fails and
  leaves the state as it is; for a caller that holds the agent role the error is
  \<open>Sequence error\<close> when the first release was not the final milestone, and
  \<open>Not active\<close> when it was, since the first release then completed the escrow.
\<close>

theorem release_in_order:
  "releaseMilestone s sender taskId i = Inr s' \<Longrightarrow>
     i = milestonesCompleted (escrows s taskId) \<and>
     releaseMilestone s' sender taskId i =
       Inl (Revert (if i = totalMilestones (escrows s taskId) - 1 then ''Not active'' else ''Sequence error'')) \<and>
     (\<forall>caller. hasRole s' AGENT_ROLE caller \<longrightarrow>
        releaseMilestone s' caller taskId i =
          Inl (Revert (if i = totalMilestones (escrows s taskId) - 1 then ''Not active'' else ''Sequence error''))) \<and>
     (\<forall>caller. \<exists>e. releaseMilestone s' caller taskId i = Inl e) \<and>
     (\<forall>caller. transact s' (ReleaseMilestone caller taskId i) = s')"
proof -
  assume c: "releaseMilestone s sender taskId i = Inr s'"
  let ?err = "Revert (if i = totalMilestones (escrows s taskId) - 1 then ''Not active'' else ''Sequence error'')"
  have role: "hasRole s' AGENT_ROLE sender"
    using releaseMilestone_D(1,9)[OF c] by (simp add: hasRole_def)
  have second: "releaseMilestone s' caller taskId i = Inl ?err" if h: "hasRole s' AGENT_ROLE caller" for caller
  proof (cases "i + 1 = totalMilestones (escrows s taskId)")
    case True
    then have "i = totalMilestones (escrows s taskId) - 1" by (simp add: word_succ_eq_last)
    then show ?thesis
      using releaseMilestone_inactive[OF h release_then_escrow(1)[OF c True]] by simp
  next
    case False
    then have ne: "i \<noteq> totalMilestones (escrows s taskId) - 1" by (simp add: word_succ_eq_last)
    from release_then_escrow(2)[OF c False]
    have "isActive (escrows s' taskId)" "disputeStatus (escrows s' taskId) = NONE"
      "i \<noteq> milestonesCompleted (escrows s' taskId)"
      by (simp_all add: word_succ_neq[symmetric])
    then show ?thesis
      using releaseMilestone_out_of_order[OF h] ne by simp
  qed
  have fails: "\<exists>e. releaseMilestone s' caller taskId i = Inl e" for caller
    using second[of caller] releaseMilestone_unauthorized[of s' caller taskId i] by blast
  have same: "transact s' (ReleaseMilestone caller taskId i) = s'" for caller
    using fails[of caller] by (auto simp: transact_def)
  show ?thesis
    using releaseMilestone_D(4)[OF c] second[OF role] second fails same by blast
qed

theorem release_in_order_witness:
  "releaseMilestone (run demo0 (take 9 demo_calls)) 9 ''T1'' 2 = Inr (run demo0 demo_calls) \<and>
   milestonesCompleted (escrows (run demo0 (take 9 demo_calls)) ''T1'') = 2 \<and>
   hasRole (run demo0 demo_calls) AGENT_ROLE 9 \<and>
   releaseMilestone (run demo0 demo_calls) 9 ''T1'' 2 = Inl (Revert ''Not active'') \<and>
   transact (run demo0 demo_calls) (ReleaseMilestone 9 ''T1'' 2) = run demo0 demo_calls"
proof -
  have r: "hasRole (run demo0 demo_calls) AGENT_ROLE 9"
    by (simp add: demo_defs)
  from release_in_order[OF demo_last_release] r demo_last_release show ?thesis
    by (simp add: demo_before_last)
qed

text \<open>
  The claim as stated fails where the first release is the final milestone: in the
  example deployment the second release of index 2 is rejected with \<open>Not active\<close>,
  not with \<open>Sequence error\<close>.
\<close>

theorem release_twice_counterexample:
  "succeeds (run demo0 (take 9 demo_calls)) (ReleaseMilestone 9 ''T1'' 2) \<and>
   transact (run demo0 (take 9 demo_calls)) (ReleaseMilestone 9 ''T1'' 2) = run demo0 demo_calls \<and>
   releaseMilestone (run demo0 demo_calls) 9 ''T1'' 2 = Inl (Revert ''Not active'') \<and>
   releaseMilestone (run demo0 demo_calls) 9 ''T1'' 2 \<noteq> Inl (Revert ''Sequence error'')"
proof -
  have "releaseMilestone (run demo0 demo_calls) 9 ''T1'' 2 = Inl (Revert ''Not active'')"
    by (simp add: demo_defs)
  then show ?thesis
    using demo_last_release by (simp add: succeeds_def transact_def)
qed

lemma releaseMilestone_open_fails:
  assumes "disputeStatus (escrows s taskId) = OPEN"
  shows "\<exists>e. releaseMilestone s sender taskId i = Inl e"
proof (cases "hasRole s AGENT_ROLE sender")
  case False
  then show ?thesis by (simp add: releaseMilestone_unauthorized)
next
  case True
  then show ?thesis
    using assms releaseMilestone_inactive[OF True, of taskId i]
      releaseMilestone_in_dispute[OF True, of taskId i]
    by (cases "isActive (escrows s taskId)") auto
qed

lemma escrows_dispatch_other:
  assumes "dispatch s c = Inr s'" "\<not> settles tid c"
  shows "disputeStatus (escrows s tid) = OPEN \<Longrightarrow> disputeStatus (escrows s' tid) = OPEN"
proof (cases c)
  case (CreateEscrow x11 x12 x13 x14 x15)
  then show "disputeStatus (escrows s tid) = OPEN \<Longrightarrow> disputeStatus (escrows s' tid) = OPEN"
    using assms by (auto simp: createEscrow_D(6))
next
  case (SubmitWorkProof x21 x22 x23 x24 x25)
  then show "disputeStatus (escrows s tid) = OPEN \<Longrightarrow> disputeStatus (escrows s' tid) = OPEN"
    using assms by (auto dest!: submitWorkProof_D(5))
next
  case (VerifyWorkProof x31 x32 x33)
  then show "disputeStatus (escrows s tid) = OPEN \<Longrightarrow> disputeStatus (escrows s' tid) = OPEN"
    using assms by (auto dest!: verifyWorkProof_D(4))
next
  case (ReleaseMilestone x41 x42 x43)
  then have r: "releaseMilestone s x41 x42 x43 = Inr s'" using assms by simp
  show "disputeStatus (escrows s tid) = OPEN \<Longrightarrow> disputeStatus (escrows s' tid) = OPEN"
    using releaseMilestone_D(7)[OF r] releaseMilestone_D(3)[OF r] by auto
next
  case (RaiseDispute x51 x52)
  then show "disputeStatus (escrows s tid) = OPEN \<Longrightarrow> disputeStatus (escrows s' tid) = OPEN"
    using assms by (auto dest!: raiseDispute_D(3))
next
  case (ResolveDispute x61 x62 x63)
  then show "disputeStatus (escrows s tid) = OPEN \<Longrightarrow> disputeStatus (escrows s' tid) = OPEN"
    using assms by (auto simp: resolveDispute_D(4))
next
  case (EmergencyRefund x71 x72)
  then show "disputeStatus (escrows s tid) = OPEN \<Longrightarrow> disputeStatus (escrows s' tid) = OPEN"
    using assms by (auto dest!: emergencyRefund_D(4))
next
  case (GrantAgentRole x81 x82)
  then show "disputeStatus (escrows s tid) = OPEN \<Longrightarrow> disputeStatus (escrows s' tid) = OPEN"
    using assms by (auto simp: grantAgentRole_def grantRole_internal_def split: if_splits)
next
  case (GrantJudgeRole x91 x92)
  then show "disputeStatus (escrows s tid) = OPEN \<Longrightarrow> disputeStatus (escrows s' tid) = OPEN"
    using assms by (auto simp: grantJudgeRole_def grantRole_internal_def split: if_splits)
next
  case (TokenActivity x101 x102)
  then show "disputeStatus (escrows s tid) = OPEN \<Longrightarrow> disputeStatus (escrows s' tid) = OPEN"
    using assms by auto
next
  case (RoleActivity x111)
  then show "disputeStatus (escrows s tid) = OPEN \<Longrightarrow> disputeStatus (escrows s' tid) = OPEN"
    using assms by auto
qed

lemma open_transact:
  assumes "disputeStatus (escrows s tid) = OPEN" "\<not> (settles tid c \<and> succeeds s c)"
  shows "disputeStatus (escrows (transact s c) tid) = OPEN"
proof (cases "dispatch s c")
  case (Inl e)
  then show ?thesis using assms by (simp add: transact_def)
next
  case (Inr s')
  then have "\<not> settles tid c" using assms(2) by (simp add: succeeds_def)
  then show ?thesis using escrows_dispatch_other[OF Inr _ assms(1)] Inr by (simp add: transact_def)
qed

lemma open_run:
  "disputeStatus (escrows s tid) = OPEN \<Longrightarrow> quiet (settles tid) s cs \<Longrightarrow>
     disputeStatus (escrows (run s cs) tid) = OPEN"
  by (induction cs arbitrary: s) (auto simp: open_transact)

text \<open>
  C3 (as amended). While \<open>disputeStatus\<close> is \<open>OPEN\<close>, every \<open>releaseMilestone\<close> on the
  escrow fails and leaves the state as it is; the error is \<open>In dispute\<close> when the caller
  holds the agent role and the escrow is active (the role check and the active check
  come first). \<open>raiseDispute\<close> succeeds only on an active escrow and only for its payer or
  its agent, and sets the status to \<open>OPEN\<close>; from then on, along any transactions among
  which no \<open>resolveDispute\<close> and no \<open>createEscrow\<close> for the task succeeds, the status
  stays \<open>OPEN\<close> and no release on the task succeeds.
\<close>

theorem dispute_freezes_release:
  "(disputeStatus (escrows s taskId) = OPEN \<longrightarrow>
      (\<exists>e. releaseMilestone s caller taskId i = Inl e) \<and>
      transact s (ReleaseMilestone caller taskId i) = s \<and>
      (hasRole s AGENT_ROLE caller \<and> isActive (escrows s taskId) \<longrightarrow>
         releaseMilestone s caller taskId i = Inl (Revert ''In dispute'')))
   \<and> (raiseDispute s sender taskId = Inr s1 \<longrightarrow>
        isActive (escrows s taskId) \<and>
        (sender = payer (escrows s taskId) \<or> sender = agent (escrows s taskId)) \<and>
        disputeStatus (escrows s1 taskId) = OPEN \<and>
        (\<forall>cs. quiet (settles taskId) s1 cs \<longrightarrow>
           disputeStatus (escrows (run s1 cs) taskId) = OPEN \<and>
           (\<forall>who j. \<exists>e. releaseMilestone (run s1 cs) who taskId j = Inl e)))"
proof (intro conjI impI)
  assume o: "disputeStatus (escrows s taskId) = OPEN"
  show f: "\<exists>e. releaseMilestone s caller taskId i = Inl e"
    using o by (rule releaseMilestone_open_fails)
  then show "transact s (ReleaseMilestone caller taskId i) = s"
    by (auto simp: transact_def)
  show "releaseMilestone s caller taskId i = Inl (Revert ''In dispute'')"
    if "hasRole s AGENT_ROLE caller \<and> isActive (escrows s taskId)"
    using that o by (simp add: releaseMilestone_in_dispute)
next
  assume c: "raiseDispute s sender taskId = Inr s1"
  show "isActive (escrows s taskId)" by (rule raiseDispute_D(1)[OF c])
  show "sender = payer (escrows s taskId) \<or> sender = agent (escrows s taskId)"
    by (rule raiseDispute_D(2)[OF c])
  show o1: "disputeStatus (escrows s1 taskId) = OPEN"
    by (simp add: raiseDispute_D(3)[OF c])
  show "\<forall>cs. quiet (settles taskId) s1 cs \<longrightarrow>
           disputeStatus (escrows (run s1 cs) taskId) = OPEN \<and>
           (\<forall>who j. \<exists>e. releaseMilestone (run s1 cs) who taskId j = Inl e)"
    using open_run[OF o1] releaseMilestone_open_fails by blast
qed

lemma demo_dispute_raised:
  "raiseDispute (run demo0 (take 3 dispute_calls)) 1 ''T1'' = Inr (run demo0 (take 4 dispute_calls))"
proof -
  have "\<exists>s'. raiseDispute (run demo0 (take 3 dispute_calls)) 1 ''T1'' = Inr s'"
    by (simp add: demo_defs dispute_calls_def)
  then obtain s' where s': "raiseDispute (run demo0 (take 3 dispute_calls)) 1 ''T1'' = Inr s'"
    by blast
  have "take 4 dispute_calls = take 3 dispute_calls @ [RaiseDispute 1 ''T1'']"
    by (simp add: dispute_calls_def)
  then have "run demo0 (take 4 dispute_calls) = transact (run demo0 (take 3 dispute_calls)) (RaiseDispute 1 ''T1'')"
    by (metis run_snoc)
  also have "\<dots> = s'" by (simp add: transact_def s')
  finally show ?thesis using s' by simp
qed

lemma demo_dispute_facts:
  "disputeStatus (escrows (run demo0 (take 4 dispute_calls)) ''T1'') = OPEN"
  "hasRole (run demo0 (take 4 dispute_calls)) AGENT_ROLE 9"
  "isActive (escrows (run demo0 (take 4 dispute_calls)) ''T1'')"
  "payer (escrows (run demo0 (take 3 dispute_calls)) ''T1'') = 1"
  "quiet (settles ''T1'') (run demo0 (take 4 dispute_calls)) [EmergencyRefund 9 ''T1'']"
  "run (run demo0 (take 4 dispute_calls)) [EmergencyRefund 9 ''T1''] = run demo0 (take 5 dispute_calls)"
  by (simp_all add: demo_defs dispute_calls_def)

theorem dispute_freezes_release_witness:
  "disputeStatus (escrows (run demo0 (take 4 dispute_calls)) ''T1'') = OPEN \<and>
   hasRole (run demo0 (take 4 dispute_calls)) AGENT_ROLE 9 \<and>
   isActive (escrows (run demo0 (take 4 dispute_calls)) ''T1'') \<and>
   releaseMilestone (run demo0 (take 4 dispute_calls)) 9 ''T1'' 0 = Inl (Revert ''In dispute'') \<and>
   transact (run demo0 (take 4 dispute_calls)) (ReleaseMilestone 9 ''T1'' 0) = run demo0 (take 4 dispute_calls) \<and>
   raiseDispute (run demo0 (take 3 dispute_calls)) 1 ''T1'' = Inr (run demo0 (take 4 dispute_calls)) \<and>
   quiet (settles ''T1'') (run demo0 (take 4 dispute_calls)) [EmergencyRefund 9 ''T1''] \<and>
   disputeStatus (escrows (run demo0 (take 5 dispute_calls)) ''T1'') = OPEN \<and>
   (\<exists>e. releaseMilestone (run demo0 (take 5 dispute_calls)) 9 ''T1'' 0 = Inl e)"
proof -
  note t1 = dispute_freezes_release[where s = "run demo0 (take 4 dispute_calls)" and taskId = "''T1''"
      and caller = 9 and i = 0]
  note t2 = dispute_freezes_release[where s = "run demo0 (take 3 dispute_calls)" and taskId = "''T1''"
      and sender = 1 and ?s1.0 = "run demo0 (take 4 dispute_calls)"]
  from t1 demo_dispute_facts(1,2,3)
  have a: "releaseMilestone (run demo0 (take 4 dispute_calls)) 9 ''T1'' 0 = Inl (Revert ''In dispute'')"
    "transact (run demo0 (take 4 dispute_calls)) (ReleaseMilestone 9 ''T1'' 0) = run demo0 (take 4 dispute_calls)"
    by blast+
  from t2 demo_dispute_raised demo_dispute_facts(5)
  have "disputeStatus (escrows (run (run demo0 (take 4 dispute_calls)) [EmergencyRefund 9 ''T1'']) ''T1'') = OPEN \<and>
        (\<exists>e. releaseMilestone (run (run demo0 (take 4 dispute_calls)) [EmergencyRefund 9 ''T1'']) 9 ''T1'' 0 = Inl e)"
    by blast
  then have b: "disputeStatus (escrows (run demo0 (take 5 dispute_calls)) ''T1'') = OPEN \<and>
        (\<exists>e. releaseMilestone (run demo0 (take 5 dispute_calls)) 9 ''T1'' 0 = Inl e)"
    by (simp only: demo_dispute_facts(6))
  show ?thesis
    using a b demo_dispute_facts(1,2,3,5) demo_dispute_raised by blast
qed

text \<open>
  The claim as stated fails twice in the example. After the emergency refund the
  dispute is still \<open>OPEN\<close> and a release by the holder of the agent role is rejected
  with \<open>Not active\<close>, not \<open>In dispute\<close>. After the task's escrow is created again, with
  no \<open>resolveDispute\<close> in between, the release of milestone 0 succeeds (its proof was
  verified for the first escrow).
\<close>

theorem dispute_counterexample:
  "succeeds (run demo0 (take 3 dispute_calls)) (RaiseDispute 1 ''T1'') \<and>
   disputeStatus (escrows (run demo0 (take 5 dispute_calls)) ''T1'') = OPEN \<and>
   hasRole (run demo0 (take 5 dispute_calls)) AGENT_ROLE 9 \<and>
   releaseMilestone (run demo0 (take 5 dispute_calls)) 9 ''T1'' 0 = Inl (Revert ''Not active'') \<and>
   succeeds (run demo0 (take 5 dispute_calls)) (CreateEscrow 1 ''T1'' 2 100 3) \<and>
   succeeds (run demo0 dispute_calls) (ReleaseMilestone 9 ''T1'' 0)"
  by (simp add: demo_defs dispute_calls_def succeeds_def)

lemma createEscrow_completed_fails:
  assumes "isCompleted (escrows s taskId)"
  shows "\<exists>e. createEscrow s sender taskId ag amount ms = Inl e"
  using assms by (auto simp: createEscrow_def)

lemma completed_dispatch:
  assumes ok: "ledger_ok s" and cmp: "isCompleted (escrows s tid)" and c: "dispatch s c = Inr s'"
  shows "isCompleted (escrows s' tid)"
proof -
  have ina: "\<not> isActive (escrows s tid)" and st: "disputeStatus (escrows s tid) = NONE"
    using ok cmp by (auto simp: ledger_ok_def escrow_ok_def)
  show ?thesis
  proof (cases c)
    case (CreateEscrow x11 x12 x13 x14 x15)
    then have r: "createEscrow s x11 x12 x13 x14 x15 = Inr s'" using c by simp
    show ?thesis using createEscrow_D(5)[OF r] cmp by (auto simp: createEscrow_D(6)[OF r])
  next
    case (SubmitWorkProof x21 x22 x23 x24 x25)
    then show ?thesis using c cmp by (auto dest!: submitWorkProof_D(5))
  next
    case (VerifyWorkProof x31 x32 x33)
    then show ?thesis using c cmp by (auto dest!: verifyWorkProof_D(4))
  next
    case (ReleaseMilestone x41 x42 x43)
    then have r: "releaseMilestone s x41 x42 x43 = Inr s'" using c by simp
    show ?thesis using releaseMilestone_D(7)[OF r] releaseMilestone_D(2)[OF r] cmp ina by auto
  next
    case (RaiseDispute x51 x52)
    then show ?thesis using c cmp by (auto dest!: raiseDispute_D(3))
  next
    case (ResolveDispute x61 x62 x63)
    then show ?thesis using c cmp by (auto simp: resolveDispute_D(4))
  next
    case (EmergencyRefund x71 x72)
    then have r: "emergencyRefund s x71 x72 = Inr s'" using c by simp
    show ?thesis using emergencyRefund_D(2)[OF r] cmp ina by (auto simp: emergencyRefund_D(4)[OF r])
  next
    case (GrantAgentRole x81 x82)
    then show ?thesis using c cmp
      by (auto simp: grantAgentRole_def grantRole_internal_def split: if_splits)
  next
    case (GrantJudgeRole x91 x92)
    then show ?thesis using c cmp
      by (auto simp: grantJudgeRole_def grantRole_internal_def split: if_splits)
  next
    case (TokenActivity x101 x102)
    then show ?thesis using c cmp by auto
  next
    case (RoleActivity x111)
    then show ?thesis using c cmp by auto
  qed
qed

lemma completed_transact:
  "ledger_ok s \<Longrightarrow> isCompleted (escrows s tid) \<Longrightarrow> isCompleted (escrows (transact s c) tid)"
  by (auto simp: transact_def split: sum.splits intro: completed_dispatch)

lemma completed_run:
  "ledger_ok s \<Longrightarrow> isCompleted (escrows s tid) \<Longrightarrow> isCompleted (escrows (run s cs) tid)"
  by (induction cs arbitrary: s) (auto simp: completed_transact ledger_ok_transact)

lemma inactive_dispatch:
  assumes ina: "\<not> isActive (escrows s tid)" and c: "dispatch s c = Inr s'" and n: "\<not> creates tid c"
  shows "\<not> isActive (escrows s' tid)"
proof (cases c)
  case (CreateEscrow x11 x12 x13 x14 x15)
  then show ?thesis using c n ina by (auto simp: createEscrow_D(6) split: if_splits)
next
  case (SubmitWorkProof x21 x22 x23 x24 x25)
  then show ?thesis using c ina by (auto dest!: submitWorkProof_D(5))
next
  case (VerifyWorkProof x31 x32 x33)
  then show ?thesis using c ina by (auto dest!: verifyWorkProof_D(4))
next
  case (ReleaseMilestone x41 x42 x43)
  then have r: "releaseMilestone s x41 x42 x43 = Inr s'" using c by simp
  show ?thesis using releaseMilestone_D(7)[OF r] releaseMilestone_D(2)[OF r] ina
    by (auto split: if_splits)
next
  case (RaiseDispute x51 x52)
  then show ?thesis using c ina by (auto dest!: raiseDispute_D(3) split: if_splits)
next
  case (ResolveDispute x61 x62 x63)
  then show ?thesis using c ina by (auto simp: resolveDispute_D(4) split: if_splits)
next
  case (EmergencyRefund x71 x72)
  then show ?thesis using c ina by (auto dest!: emergencyRefund_D(4) split: if_splits)
next
  case (GrantAgentRole x81 x82)
  then show ?thesis using c ina
    by (auto simp: grantAgentRole_def grantRole_internal_def split: if_splits)
next
  case (GrantJudgeRole x91 x92)
  then show ?thesis using c ina
    by (auto simp: grantJudgeRole_def grantRole_internal_def split: if_splits)
next
  case (TokenActivity x101 x102)
  then show ?thesis using c ina by auto
next
  case (RoleActivity x111)
  then show ?thesis using c ina by auto
qed

lemma inactive_transact:
  assumes "\<not> isActive (escrows s tid)" "\<not> (creates tid c \<and> succeeds s c)"
  shows "\<not> isActive (escrows (transact s c) tid)"
proof (cases "dispatch s c")
  case (Inl e)
  then show ?thesis using assms by (simp add: transact_def)
next
  case (Inr s')
  then have "\<not> creates tid c" using assms(2) by (simp add: succeeds_def)
  then show ?thesis using inactive_dispatch[OF assms(1) Inr] Inr by (simp add: transact_def)
qed

lemma inactive_run:
  "\<not> isActive (escrows s tid) \<Longrightarrow> quiet (creates tid) s cs \<Longrightarrow> \<not> isActive (escrows (run s cs) tid)"
  by (induction cs arbitrary: s) (auto simp: inactive_transact)

text \<open>
  C6 (as amended). Once the escrow of a task is completed, in a reachable state, it
  stays completed and inactive along every further sequence of transactions, and every
  \<open>createEscrow\<close> for the task fails. An escrow cancelled by emergency refund is inactive
  and not completed, and a dispute-resolved one is inactive. From any state in which
  the escrow of a task is inactive, \<open>isActive\<close> stays false along all transactions among
  which no \<open>createEscrow\<close> for the task succeeds.
\<close>

theorem completed_escrow_is_final:
  "(let s = run (constructor deployer self bal allow) cs in
      isCompleted (escrows s taskId) \<longrightarrow>
        (\<forall>ds. isCompleted (escrows (run s ds) taskId) \<and> \<not> isActive (escrows (run s ds) taskId) \<and>
              (\<forall>sender ag amount ms. \<exists>e. createEscrow (run s ds) sender taskId ag amount ms = Inl e)))
   \<and> (emergencyRefund t admin taskId = Inr t' \<longrightarrow>
        \<not> isActive (escrows t' taskId) \<and> \<not> isCompleted (escrows t' taskId))
   \<and> (resolveDispute t judge taskId resolution = Inr t' \<longrightarrow> \<not> isActive (escrows t' taskId))
   \<and> (\<not> isActive (escrows t taskId) \<and> quiet (creates taskId) t ds \<longrightarrow>
        \<not> isActive (escrows (run t ds) taskId))"
proof (intro conjI)
  let ?s = "run (constructor deployer self bal allow) cs"
  have "\<forall>ds. isCompleted (escrows (run ?s ds) taskId) \<and> \<not> isActive (escrows (run ?s ds) taskId) \<and>
              (\<forall>sender ag amount ms. \<exists>e. createEscrow (run ?s ds) sender taskId ag amount ms = Inl e)"
    if cmp: "isCompleted (escrows ?s taskId)"
  proof
    fix ds
    have ok: "ledger_ok ?s" by (rule ledger_ok_reachable)
    then have ok': "ledger_ok (run ?s ds)" by (rule ledger_ok_run)
    have d: "isCompleted (escrows (run ?s ds) taskId)" using completed_run[OF ok cmp] .
    then have "\<not> isActive (escrows (run ?s ds) taskId)"
      using ok' by (auto simp: ledger_ok_def escrow_ok_def)
    then show "isCompleted (escrows (run ?s ds) taskId) \<and> \<not> isActive (escrows (run ?s ds) taskId) \<and>
              (\<forall>sender ag amount ms. \<exists>e. createEscrow (run ?s ds) sender taskId ag amount ms = Inl e)"
      using d createEscrow_completed_fails by blast
  qed
  then show "let s = ?s in
      isCompleted (escrows s taskId) \<longrightarrow>
        (\<forall>ds. isCompleted (escrows (run s ds) taskId) \<and> \<not> isActive (escrows (run s ds) taskId) \<and>
              (\<forall>sender ag amount ms. \<exists>e. createEscrow (run s ds) sender taskId ag amount ms = Inl e))"
    unfolding Let_def by blast
  show "emergencyRefund t admin taskId = Inr t' \<longrightarrow>
        \<not> isActive (escrows t' taskId) \<and> \<not> isCompleted (escrows t' taskId)"
    by (auto dest!: emergencyRefund_D(4))
  show "resolveDispute t judge taskId resolution = Inr t' \<longrightarrow> \<not> isActive (escrows t' taskId)"
    by (auto simp: resolveDispute_D(4))
  show "\<not> isActive (escrows t taskId) \<and> quiet (creates taskId) t ds \<longrightarrow>
        \<not> isActive (escrows (run t ds) taskId)"
    using inactive_run by blast
qed

lemma demo_completed: "isCompleted (escrows (run demo0 demo_calls) ''T1'')"
  by (simp add: demo_defs)

lemma demo_cancel_facts:
  "\<exists>t'. emergencyRefund (run demo0 (take 1 cancel_calls)) 9 ''T1'' = Inr t'"
  "\<exists>t'. resolveDispute (run demo0 (take 2 settle_calls)) 9 ''T1'' REFUNDED = Inr t'"
  "\<not> isActive (escrows (run demo0 (take 2 cancel_calls)) ''T1'')"
  "quiet (creates ''T1'') (run demo0 (take 2 cancel_calls)) [GrantAgentRole 9 3, CreateEscrow 1 ''T2'' 2 10 1]"
  by (simp_all add: demo_defs cancel_calls_def settle_calls_def succeeds_def grantAgentRole_def)

theorem completed_escrow_is_final_witness:
  "isCompleted (escrows (run demo0 demo_calls) ''T1'') \<and>
   isCompleted (escrows (run (run demo0 demo_calls) [CreateEscrow 1 ''T1'' 2 50 1]) ''T1'') \<and>
   \<not> isActive (escrows (run (run demo0 demo_calls) [CreateEscrow 1 ''T1'' 2 50 1]) ''T1'') \<and>
   (\<exists>e. createEscrow (run demo0 demo_calls) 1 ''T1'' 2 50 1 = Inl e) \<and>
   (\<exists>t'. emergencyRefund (run demo0 (take 1 cancel_calls)) 9 ''T1'' = Inr t' \<and>
         \<not> isActive (escrows t' ''T1'') \<and> \<not> isCompleted (escrows t' ''T1'')) \<and>
   (\<exists>t'. resolveDispute (run demo0 (take 2 settle_calls)) 9 ''T1'' REFUNDED = Inr t' \<and>
         \<not> isActive (escrows t' ''T1'')) \<and>
   \<not> isActive (escrows (run demo0 (take 2 cancel_calls)) ''T1'') \<and>
   quiet (creates ''T1'') (run demo0 (take 2 cancel_calls)) [GrantAgentRole 9 3, CreateEscrow 1 ''T2'' 2 10 1] \<and>
   \<not> isActive (escrows (run (run demo0 (take 2 cancel_calls)) [GrantAgentRole 9 3, CreateEscrow 1 ''T2'' 2 10 1]) ''T1'')"
proof -
  have d: "isCompleted (escrows (run (constructor 9 7 ((\<lambda>_. 0)(1 := 1000)) ((\<lambda>_ _. 0)(1 := (\<lambda>_. 0)(7 := 1000)))) demo_calls) ''T1'')"
    using demo_completed by (simp add: demo0_def)
  note t = completed_escrow_is_final[where deployer = 9 and self = 7 and bal = "(\<lambda>_. 0)(1 := 1000)"
      and allow = "(\<lambda>_ _. 0)(1 := (\<lambda>_. 0)(7 := 1000))" and cs = demo_calls and taskId = "''T1''",
      unfolded Let_def, folded demo0_def]
  have a: "isCompleted (escrows (run (run demo0 demo_calls) [CreateEscrow 1 ''T1'' 2 50 1]) ''T1'') \<and>
   \<not> isActive (escrows (run (run demo0 demo_calls) [CreateEscrow 1 ''T1'' 2 50 1]) ''T1'')"
    using t demo_completed by blast
  have "\<exists>e. createEscrow (run (run demo0 demo_calls) []) 1 ''T1'' 2 50 1 = Inl e"
    using t demo_completed by blast
  then have b: "\<exists>e. createEscrow (run demo0 demo_calls) 1 ''T1'' 2 50 1 = Inl e" by simp
  have c: "\<exists>t'. emergencyRefund (run demo0 (take 1 cancel_calls)) 9 ''T1'' = Inr t' \<and>
         \<not> isActive (escrows t' ''T1'') \<and> \<not> isCompleted (escrows t' ''T1'')"
    using t demo_cancel_facts(1) by blast
  have e: "\<exists>t'. resolveDispute (run demo0 (take 2 settle_calls)) 9 ''T1'' REFUNDED = Inr t' \<and>
         \<not> isActive (escrows t' ''T1'')"
    using t demo_cancel_facts(2) by blast
  have f: "\<not> isActive (escrows (run (run demo0 (take 2 cancel_calls)) [GrantAgentRole 9 3, CreateEscrow 1 ''T2'' 2 10 1]) ''T1'')"
    using t demo_cancel_facts(3,4) by blast
  show ?thesis using demo_completed a b c e f demo_cancel_facts(3,4) by blast
qed

text \<open>
  The claim as stated fails for a cancelled escrow and for a dispute-resolved one: in
  both examples the escrow of ''T1'' is inactive, \<open>createEscrow\<close> for ''T1'' then succeeds,
  and \<open>isActive\<close> of ''T1'' is true again.
\<close>

theorem recreate_counterexample:
  "\<not> isActive (escrows (run demo0 (take 2 cancel_calls)) ''T1'') \<and>
   succeeds (run demo0 (take 2 cancel_calls)) (CreateEscrow 1 ''T1'' 2 50 1) \<and>
   isActive (escrows (run demo0 cancel_calls) ''T1'') \<and>
   disputeStatus (escrows (run demo0 (take 3 settle_calls)) ''T1'') = REFUNDED \<and>
   \<not> isActive (escrows (run demo0 (take 3 settle_calls)) ''T1'') \<and>
   succeeds (run demo0 (take 3 settle_calls)) (CreateEscrow 1 ''T1'' 2 50 1) \<and>
   isActive (escrows (run demo0 settle_calls) ''T1'')"
  by (simp add: demo_defs cancel_calls_def settle_calls_def succeeds_def)

lemma resolveDispute_FULL:
  assumes c: "resolveDispute s sender taskId RESOLVED_FULL = Inr s'"
  shows "events s' = events s @
           [Transfer (this s) (agent (escrows s taskId)) (totalAmount (escrows s taskId) - paidAmount (escrows s taskId)),
            ReputationUpdated (agent (escrows s taskId)) (reputations s' (agent (escrows s taskId))),
            DisputeResolved taskId RESOLVED_FULL]"
    and "balances s' = moveTokens (this s) (agent (escrows s taskId))
           (totalAmount (escrows s taskId) - paidAmount (escrows s taskId)) (balances s)"
    and "reputations s' = reputations (updateReputation (agent (escrows s taskId)) True s)"
    and "totalAmount (escrows s taskId) - paidAmount (escrows s taskId) \<le> balances s (this s)"
  using c unfolding resolveDispute_def Let_def
  by (auto simp: checked_sub_def token_transfer_eq emit_def updateReputation_frame updateReputation_value
      split: sum.splits if_splits)

lemma resolveDispute_REFUNDED:
  assumes c: "resolveDispute s sender taskId REFUNDED = Inr s'"
  shows "events s' = events s @
           [Transfer (this s) (payer (escrows s taskId)) (totalAmount (escrows s taskId) - paidAmount (escrows s taskId)),
            ReputationUpdated (agent (escrows s taskId)) (reputations s' (agent (escrows s taskId))),
            DisputeResolved taskId REFUNDED]"
    and "balances s' = moveTokens (this s) (payer (escrows s taskId))
           (totalAmount (escrows s taskId) - paidAmount (escrows s taskId)) (balances s)"
    and "reputations s' = reputations (updateReputation (agent (escrows s taskId)) False s)"
    and "totalAmount (escrows s taskId) - paidAmount (escrows s taskId) \<le> balances s (this s)"
  using c unfolding resolveDispute_def Let_def
  by (auto simp: checked_sub_def token_transfer_eq emit_def updateReputation_frame updateReputation_value
      split: sum.splits if_splits)

lemma resolveDispute_PARTIAL:
  assumes c: "resolveDispute s sender taskId RESOLVED_PARTIAL = Inr s'"
  shows "events s' = events s @
           [Transfer (this s) (agent (escrows s taskId))
              ((totalAmount (escrows s taskId) - paidAmount (escrows s taskId)) div 2),
            Transfer (this s) (payer (escrows s taskId))
              ((totalAmount (escrows s taskId) - paidAmount (escrows s taskId))
                - (totalAmount (escrows s taskId) - paidAmount (escrows s taskId)) div 2),
            DisputeResolved taskId RESOLVED_PARTIAL]"
    and "balances s' =
           moveTokens (this s) (payer (escrows s taskId))
             ((totalAmount (escrows s taskId) - paidAmount (escrows s taskId))
                - (totalAmount (escrows s taskId) - paidAmount (escrows s taskId)) div 2)
             (moveTokens (this s) (agent (escrows s taskId))
                ((totalAmount (escrows s taskId) - paidAmount (escrows s taskId)) div 2) (balances s))"
    and "reputations s' = reputations s"
  using c unfolding resolveDispute_def Let_def
  by (auto simp: checked_sub_def token_transfer_eq emit_def split: sum.splits if_splits)

lemma resolveDispute_no_payout:
  assumes r: "resolution = NONE \<or> resolution = OPEN"
  shows "resolveDispute s sender taskId resolution =
     (if \<not> hasRole s JUDGE_ROLE sender then Inl (AccessControlUnauthorizedAccount sender JUDGE_ROLE)
      else if disputeStatus (escrows s taskId) \<noteq> OPEN then Inl (Revert ''No open dispute'')
      else if totalAmount (escrows s taskId) < paidAmount (escrows s taskId) then Inl (Panic 17)
      else Inr (s\<lparr>escrows := (escrows s)(taskId := (escrows s taskId)\<lparr>isActive := False, disputeStatus := resolution\<rparr>),
                  events := events s @ [DisputeResolved taskId resolution]\<rparr>))"
  using r unfolding resolveDispute_def Let_def
  by (auto simp: checked_sub_def emit_def)

text \<open>
  What a successful \<open>resolveDispute\<close> does. It found the dispute \<open>OPEN\<close>; with
  \<open>remaining = totalAmount - paidAmount\<close> it leaves the escrow inactive with the given
  status and
  \<^item> under \<open>RESOLVED_FULL\<close> transfers \<open>remaining\<close> to the agent and records a success event
    for the agent (5 more, capped at 100);
  \<^item> under \<open>REFUNDED\<close> transfers \<open>remaining\<close> to the payer and records a failure event for
    the agent;
  \<^item> under \<open>RESOLVED_PARTIAL\<close> transfers \<open>remaining div 2\<close> to the agent and the rest to the
    payer, 25 and 26 when \<open>remaining\<close> is 51, and changes no reputation.
\<close>

lemma resolveDispute_effects:
  assumes c: "resolveDispute s judge taskId resolution = Inr s'"
  shows "let e = escrows s taskId; remaining = totalAmount e - paidAmount e;
             rep = reputations s (agent e)
      in disputeStatus e = OPEN \<and> paidAmount e \<le> totalAmount e \<and>
         \<not> isActive (escrows s' taskId) \<and> disputeStatus (escrows s' taskId) = resolution \<and>
         (resolution = RESOLVED_FULL \<longrightarrow>
            payments (events s') = payments (events s) @ [(this s, agent e, remaining)] \<and>
            balances s' = moveTokens (this s) (agent e) remaining (balances s) \<and>
            reputations s' = reputations (updateReputation (agent e) True s) \<and>
            (rep \<le> 100 \<longrightarrow> reputations s' = (reputations s)(agent e := min 100 (rep + 5)))) \<and>
         (resolution = REFUNDED \<longrightarrow>
            payments (events s') = payments (events s) @ [(this s, payer e, remaining)] \<and>
            balances s' = moveTokens (this s) (payer e) remaining (balances s) \<and>
            reputations s' = reputations (updateReputation (agent e) False s)) \<and>
         (resolution = RESOLVED_PARTIAL \<longrightarrow>
            payments (events s') = payments (events s) @
               [(this s, agent e, remaining div 2), (this s, payer e, remaining - remaining div 2)] \<and>
            balances s' = moveTokens (this s) (payer e) (remaining - remaining div 2)
                            (moveTokens (this s) (agent e) (remaining div 2) (balances s)) \<and>
            reputations s' = reputations s \<and>
            (remaining = 51 \<longrightarrow>
               payments (events s') = payments (events s) @ [(this s, agent e, 25), (this s, payer e, 26)]))"
proof -
  let ?e = "escrows s taskId"
  let ?rem = "totalAmount ?e - paidAmount ?e"
  have base: "disputeStatus ?e = OPEN" "paidAmount ?e \<le> totalAmount ?e"
    "\<not> isActive (escrows s' taskId)" "disputeStatus (escrows s' taskId) = resolution"
    using resolveDispute_D(2,3)[OF c] by (simp_all add: resolveDispute_D(4)[OF c])
  have full: "payments (events s') = payments (events s) @ [(this s, agent ?e, ?rem)] \<and>
            balances s' = moveTokens (this s) (agent ?e) ?rem (balances s) \<and>
            reputations s' = reputations (updateReputation (agent ?e) True s) \<and>
            (reputations s (agent ?e) \<le> 100 \<longrightarrow>
               reputations s' = (reputations s)(agent ?e := min 100 (reputations s (agent ?e) + 5)))"
    if r: "resolution = RESOLVED_FULL"
    using resolveDispute_FULL[OF c[unfolded r]]
    by (auto simp: payments_append updateReputation_value)
  have refund: "payments (events s') = payments (events s) @ [(this s, payer ?e, ?rem)] \<and>
            balances s' = moveTokens (this s) (payer ?e) ?rem (balances s) \<and>
            reputations s' = reputations (updateReputation (agent ?e) False s)"
    if r: "resolution = REFUNDED"
    using resolveDispute_REFUNDED[OF c[unfolded r]]
    by (auto simp: payments_append)
  have part: "payments (events s') = payments (events s) @
               [(this s, agent ?e, ?rem div 2), (this s, payer ?e, ?rem - ?rem div 2)] \<and>
            balances s' = moveTokens (this s) (payer ?e) (?rem - ?rem div 2)
                            (moveTokens (this s) (agent ?e) (?rem div 2) (balances s)) \<and>
            reputations s' = reputations s \<and>
            (?rem = 51 \<longrightarrow>
               payments (events s') = payments (events s) @ [(this s, agent ?e, 25), (this s, payer ?e, 26)])"
    if r: "resolution = RESOLVED_PARTIAL"
    using resolveDispute_PARTIAL[OF c[unfolded r]]
    by (auto simp: payments_append)
  show ?thesis
    unfolding Let_def using base full refund part by blast
qed

lemma demo_partial:
  "\<exists>s'. resolveDispute (run demo0 (take 5 partial_calls)) 9 ''T1'' RESOLVED_PARTIAL = Inr s'"
  "this (run demo0 (take 5 partial_calls)) = 7"
  "agent (escrows (run demo0 (take 5 partial_calls)) ''T1'') = 2"
  "payer (escrows (run demo0 (take 5 partial_calls)) ''T1'') = 1"
  "totalAmount (escrows (run demo0 (take 5 partial_calls)) ''T1'') = 102"
  "paidAmount (escrows (run demo0 (take 5 partial_calls)) ''T1'') = 51"
  "payments (events (run demo0 (take 5 partial_calls))) = [(1, 7, 102), (7, 2, 51)]"
  by (simp_all add: demo_defs partial_calls_def)

lemma resolveDispute_partial_example:
  "\<exists>s'. resolveDispute (run demo0 (take 5 partial_calls)) 9 ''T1'' RESOLVED_PARTIAL = Inr s' \<and>
      totalAmount (escrows (run demo0 (take 5 partial_calls)) ''T1'')
        - paidAmount (escrows (run demo0 (take 5 partial_calls)) ''T1'') = 51 \<and>
      payments (events s') = [(1, 7, 102), (7, 2, 51), (7, 2, 25), (7, 1, 26)] \<and>
      \<not> isActive (escrows s' ''T1'')"
proof -
  obtain s' where c: "resolveDispute (run demo0 (take 5 partial_calls)) 9 ''T1'' RESOLVED_PARTIAL = Inr s'"
    using demo_partial(1) by blast
  from resolveDispute_effects[OF c]
  have "payments (events s') = [(1, 7, 102), (7, 2, 51), (7, 2, 25), (7, 1, 26)] \<and>
      \<not> isActive (escrows s' ''T1'')"
    by (simp add: Let_def demo_partial(2-7))
  then show ?thesis using c by (simp add: demo_partial(5,6))
qed

text \<open>
  C5. The payouts of \<open>resolveDispute\<close> and the inactive flag are as the claim says
  (\<open>resolveDispute_effects\<close>, \<open>resolveDispute_partial_example\<close>); the reputation under
  \<open>REFUNDED\<close> is not. In the example deployment agent 2 has the score 10 after four
  refunds, and the fifth dispute, on ''R5'', is \<open>OPEN\<close> with 100 remaining. Resolving it
  as \<open>REFUNDED\<close> succeeds, pays the 100 to the payer and leaves the escrow inactive, and
  the agent's score is still 10, where a decrease by 10 with a floor of 0 gives 0.
\<close>

theorem resolveDispute_refund_at_10:
  "disputeStatus (escrows (run demo0 (take 14 refund_calls)) ''R5'') = OPEN \<and>
   agent (escrows (run demo0 (take 14 refund_calls)) ''R5'') = 2 \<and>
   payer (escrows (run demo0 (take 14 refund_calls)) ''R5'') = 1 \<and>
   totalAmount (escrows (run demo0 (take 14 refund_calls)) ''R5'')
     - paidAmount (escrows (run demo0 (take 14 refund_calls)) ''R5'') = 100 \<and>
   reputations (run demo0 (take 14 refund_calls)) 2 = 10 \<and>
   succeeds (run demo0 (take 14 refund_calls)) (ResolveDispute 9 ''R5'' REFUNDED) \<and>
   payments (events (transact (run demo0 (take 14 refund_calls)) (ResolveDispute 9 ''R5'' REFUNDED)))
     = payments (events (run demo0 (take 14 refund_calls))) @ [(7, 1, 100)] \<and>
   \<not> isActive (escrows (transact (run demo0 (take 14 refund_calls)) (ResolveDispute 9 ''R5'' REFUNDED)) ''R5'') \<and>
   reputations (transact (run demo0 (take 14 refund_calls)) (ResolveDispute 9 ''R5'' REFUNDED)) 2 = 10"
  by (simp add: demo_defs refund_calls_def succeeds_def)

text \<open>
  C9 (as amended). In a reachable state, \<open>resolveDispute\<close> by a holder of the judge role
  on an escrow whose dispute is \<open>OPEN\<close>, with the resolution \<open>NONE\<close> or \<open>OPEN\<close>, succeeds:
  it sets \<open>isActive\<close> to false and stores the status it was given, logs
  \<open>DisputeResolved\<close>, and moves no tokens, so that the balances, the ledger's own
  among them, and the escrow's amounts are as before (the ledger's balance need not
  cover the remaining amount). The escrow then stays inactive along all transactions
  among which no \<open>createEscrow\<close> for the task succeeds.
\<close>

theorem resolveDispute_without_payout:
  "(let s = run (constructor deployer self bal allow) cs; e = escrows s taskId in
      hasRole s JUDGE_ROLE judge \<and> disputeStatus e = OPEN \<and> (resolution = NONE \<or> resolution = OPEN) \<longrightarrow>
      (\<exists>s'. resolveDispute s judge taskId resolution = Inr s' \<and>
           \<not> isActive (escrows s' taskId) \<and> disputeStatus (escrows s' taskId) = resolution \<and>
           totalAmount (escrows s' taskId) = totalAmount e \<and>
           paidAmount (escrows s' taskId) = paidAmount e \<and>
           balances s' = balances s \<and>
           payments (events s') = payments (events s) \<and>
           events s' = events s @ [DisputeResolved taskId resolution] \<and>
           (\<forall>ds. quiet (creates taskId) s' ds \<longrightarrow> \<not> isActive (escrows (run s' ds) taskId))))"
proof -
  let ?s = "run (constructor deployer self bal allow) cs"
  let ?e = "escrows ?s taskId"
  let ?s' = "?s\<lparr>escrows := (escrows ?s)(taskId := ?e\<lparr>isActive := False, disputeStatus := resolution\<rparr>),
                events := events ?s @ [DisputeResolved taskId resolution]\<rparr>"
  have goal: "\<exists>s'. resolveDispute ?s judge taskId resolution = Inr s' \<and>
           \<not> isActive (escrows s' taskId) \<and> disputeStatus (escrows s' taskId) = resolution \<and>
           totalAmount (escrows s' taskId) = totalAmount ?e \<and>
           paidAmount (escrows s' taskId) = paidAmount ?e \<and>
           balances s' = balances ?s \<and>
           payments (events s') = payments (events ?s) \<and>
           events s' = events ?s @ [DisputeResolved taskId resolution] \<and>
           (\<forall>ds. quiet (creates taskId) s' ds \<longrightarrow> \<not> isActive (escrows (run s' ds) taskId))"
    if h: "hasRole ?s JUDGE_ROLE judge" "disputeStatus ?e = OPEN" "resolution = NONE \<or> resolution = OPEN"
  proof -
    have "ledger_ok ?s" by (rule ledger_ok_reachable)
    then have "paidAmount ?e \<le> totalAmount ?e" by (simp add: ledger_ok_def escrow_ok_def)
    then have r: "resolveDispute ?s judge taskId resolution = Inr ?s'"
      using h by (simp add: resolveDispute_no_payout)
    have ina: "\<not> isActive (escrows ?s' taskId)" by simp
    have "\<forall>ds. quiet (creates taskId) ?s' ds \<longrightarrow> \<not> isActive (escrows (run ?s' ds) taskId)"
      using inactive_run[OF ina] by blast
    then show ?thesis
      using r by (simp add: payments_append)
  qed
  then show ?thesis unfolding Let_def by blast
qed

lemma demo_none_facts:
  "hasRole (run demo0 (take 2 none_calls)) JUDGE_ROLE 9"
  "disputeStatus (escrows (run demo0 (take 2 none_calls)) ''T1'') = OPEN"
  "totalAmount (escrows (run demo0 (take 2 none_calls)) ''T1'') = 100"
  "paidAmount (escrows (run demo0 (take 2 none_calls)) ''T1'') = 0"
  "balances (run demo0 (take 2 none_calls)) 7 = 100"
  by (simp_all add: demo_defs none_calls_def)

theorem resolveDispute_without_payout_witness:
  "hasRole (run demo0 (take 2 none_calls)) JUDGE_ROLE 9 \<and>
   disputeStatus (escrows (run demo0 (take 2 none_calls)) ''T1'') = OPEN \<and>
   (\<exists>s'. resolveDispute (run demo0 (take 2 none_calls)) 9 ''T1'' NONE = Inr s' \<and>
      \<not> isActive (escrows s' ''T1'') \<and> disputeStatus (escrows s' ''T1'') = NONE \<and>
      totalAmount (escrows s' ''T1'') - paidAmount (escrows s' ''T1'') = 100 \<and>
      balances s' 7 = 100 \<and>
      quiet (creates ''T1'') s' [] \<and> \<not> isActive (escrows (run s' []) ''T1''))"
proof -
  note t = resolveDispute_without_payout[where deployer = 9 and self = 7 and bal = "(\<lambda>_. 0)(1 := 1000)"
      and allow = "(\<lambda>_ _. 0)(1 := (\<lambda>_. 0)(7 := 1000))" and cs = "take 2 none_calls"
      and taskId = "''T1''" and judge = 9 and resolution = NONE,
      unfolded Let_def, folded demo0_def]
  from t demo_none_facts(1,2) obtain s' where
    s': "resolveDispute (run demo0 (take 2 none_calls)) 9 ''T1'' NONE = Inr s'"
      "\<not> isActive (escrows s' ''T1'')" "disputeStatus (escrows s' ''T1'') = NONE"
      "totalAmount (escrows s' ''T1'') = totalAmount (escrows (run demo0 (take 2 none_calls)) ''T1'')"
      "paidAmount (escrows s' ''T1'') = paidAmount (escrows (run demo0 (take 2 none_calls)) ''T1'')"
      "balances s' = balances (run demo0 (take 2 none_calls))"
      "\<forall>ds. quiet (creates ''T1'') s' ds \<longrightarrow> \<not> isActive (escrows (run s' ds) ''T1'')"
    by blast
  have "quiet (creates ''T1'') s' []" by simp
  with s' demo_none_facts show ?thesis
    by (intro conjI exI[of _ s']) simp_all
qed

text \<open>
  The claim as stated fails twice. On custody: in the example of the dispute that is
  never resolved, after the emergency refund the dispute of ''T1'' is still \<open>OPEN\<close>, 100
  remain unpaid in the escrow's books, and the ledger (address 7) holds no tokens;
  \<open>resolveDispute\<close> with \<open>NONE\<close> succeeds there, and the ledger still holds none. On
  "permanently inactive": in the other example the dispute is resolved with the status
  \<open>NONE\<close>, the escrow of ''T1'' is inactive, and a later \<open>createEscrow\<close> for ''T1'' succeeds
  and leaves \<open>isActive\<close> of ''T1'' true.
\<close>

theorem resolve_none_counterexample:
  "disputeStatus (escrows (run demo0 (take 5 dispute_calls)) ''T1'') = OPEN \<and>
   hasRole (run demo0 (take 5 dispute_calls)) JUDGE_ROLE 9 \<and>
   this (run demo0 (take 5 dispute_calls)) = 7 \<and>
   totalAmount (escrows (run demo0 (take 5 dispute_calls)) ''T1'')
     - paidAmount (escrows (run demo0 (take 5 dispute_calls)) ''T1'') = 100 \<and>
   balances (run demo0 (take 5 dispute_calls)) 7 = 0 \<and>
   succeeds (run demo0 (take 5 dispute_calls)) (ResolveDispute 9 ''T1'' NONE) \<and>
   balances (transact (run demo0 (take 5 dispute_calls)) (ResolveDispute 9 ''T1'' NONE)) 7 = 0 \<and>
   succeeds (run demo0 (take 2 none_calls)) (ResolveDispute 9 ''T1'' NONE) \<and>
   \<not> isActive (escrows (run demo0 (take 3 none_calls)) ''T1'') \<and>
   disputeStatus (escrows (run demo0 (take 3 none_calls)) ''T1'') = NONE \<and>
   succeeds (run demo0 (take 3 none_calls)) (CreateEscrow 1 ''T1'' 2 50 1) \<and>
   isActive (escrows (run demo0 none_calls) ''T1'')"
  by (simp add: demo_defs none_calls_def dispute_calls_def succeeds_def)

section \<open>Properties of the retry loop\<close>

lemma attemptLoop_done:
  "\<not> attempts < maxAttempts \<Longrightarrow> attemptLoop opn attempts = (Returned None, [])"
  by (subst attemptLoop.simps) simp

lemma attemptLoop_ok:
  "attempts < maxAttempts \<Longrightarrow> invoke opn attempts = Inr r \<Longrightarrow>
     attemptLoop opn attempts
       = (Returned r, [(attempts, getTxOptions (transactionCount opn attempts))])"
  by (subst attemptLoop.simps) (simp add: invoke_def Let_def)

lemma attemptLoop_throw:
  "attempts < maxAttempts \<Longrightarrow> invoke opn attempts = Inl e \<Longrightarrow>
     \<not> (isNonceError e \<and> attempts + 1 < maxAttempts) \<Longrightarrow>
     attemptLoop opn attempts
       = (Thrown e, [(attempts, getTxOptions (transactionCount opn attempts))])"
  by (subst attemptLoop.simps) (auto simp: invoke_def Let_def)

lemma attemptLoop_retry:
  "attempts < maxAttempts \<Longrightarrow> invoke opn attempts = Inl e \<Longrightarrow>
     isNonceError e \<Longrightarrow> attempts + 1 < maxAttempts \<Longrightarrow>
     attemptLoop opn attempts
       = (fst (attemptLoop opn (attempts + 1)),
          (attempts, getTxOptions (transactionCount opn attempts))
            # snd (attemptLoop opn (attempts + 1)))"
  by (subst attemptLoop.simps) (simp add: invoke_def Let_def split: prod.splits)

lemma attemptLoop_induct [case_names finished ok throw retry]:
  assumes "\<And>a. \<not> a < maxAttempts \<Longrightarrow> P a"
    and "\<And>a r. a < maxAttempts \<Longrightarrow> invoke opn a = Inr r \<Longrightarrow> P a"
    and "\<And>a e. a < maxAttempts \<Longrightarrow> invoke opn a = Inl e \<Longrightarrow>
            \<not> (isNonceError e \<and> a + 1 < maxAttempts) \<Longrightarrow> P a"
    and "\<And>a e. a < maxAttempts \<Longrightarrow> invoke opn a = Inl e \<Longrightarrow> isNonceError e \<Longrightarrow>
            a + 1 < maxAttempts \<Longrightarrow> P (a + 1) \<Longrightarrow> P a"
  shows "P a"
proof (induction "maxAttempts - a" arbitrary: a)
  case 0
  then show ?case using assms(1) by simp
next
  case (Suc n)
  then have lt: "a < maxAttempts" by simp
  show ?case
  proof (cases "invoke opn a")
    case (Inr r)
    then show ?thesis using assms(2) lt by blast
  next
    case (Inl e)
    show ?thesis
    proof (cases "isNonceError e \<and> a + 1 < maxAttempts")
      case False
      then show ?thesis using assms(3)[OF lt Inl] by blast
    next
      case True
      have "n = maxAttempts - (a + 1)" using Suc(2) by simp
      then have "P (a + 1)" by (rule Suc(1))
      then show ?thesis using assms(4)[OF lt Inl] True by blast
    qed
  qed
qed

text \<open>The invocations are numbered without gaps and stop before \<open>maxAttempts\<close>.\<close>

lemma attemptLoop_attempts:
  "\<exists>n. map fst (snd (attemptLoop opn a)) = [a ..< a + n] \<and> a + n \<le> max a maxAttempts"
proof (induction a rule: attemptLoop_induct[where opn = opn])
  case (finished a)
  then show ?case by (simp add: attemptLoop_done)
next
  case (ok a r)
  then have "map fst (snd (attemptLoop opn a)) = [a ..< a + 1]"
    by (simp add: attemptLoop_ok)
  then show ?case using ok(1) by (intro exI[of _ 1]) simp
next
  case (throw a e)
  then have "map fst (snd (attemptLoop opn a)) = [a ..< a + 1]"
    by (simp add: attemptLoop_throw)
  then show ?case using throw(1) by (intro exI[of _ 1]) simp
next
  case (retry a e)
  then obtain n where n: "map fst (snd (attemptLoop opn (a + 1))) = [a + 1 ..< a + 1 + n]"
    "a + 1 + n \<le> max (a + 1) maxAttempts" by blast
  have "map fst (snd (attemptLoop opn a)) = a # [a + 1 ..< a + 1 + n]"
    using retry(1-4) n(1) by (simp add: attemptLoop_retry)
  also have "\<dots> = [a ..< a + (n + 1)]" by (simp add: upt_rec)
  finally show ?case using n(2) retry(4) by (intro exI[of _ "n + 1"]) simp
qed

lemma attemptLoop_at_most:
  "length (snd (attemptLoop opn 0)) \<le> 5"
  "map fst (snd (attemptLoop opn 0)) = [0 ..< length (snd (attemptLoop opn 0))]"
proof -
  obtain n where n: "map fst (snd (attemptLoop opn 0)) = [0 ..< 0 + n]" "0 + n \<le> max 0 maxAttempts"
    using attemptLoop_attempts[of opn 0] by blast
  then have l: "length (snd (attemptLoop opn 0)) = n"
    by (metis add_0 diff_zero length_map length_upt)
  show "length (snd (attemptLoop opn 0)) \<le> 5" using l n(2) by (simp add: maxAttempts_def)
  show "map fst (snd (attemptLoop opn 0)) = [0 ..< length (snd (attemptLoop opn 0))]"
    using l n(1) by simp
qed

text \<open>Every invocation sends the options resolved for that invocation.\<close>

lemma attemptLoop_fresh_options:
  "(k, opts) \<in> set (snd (attemptLoop opn a)) \<Longrightarrow> opts = getTxOptions (transactionCount opn k)"
  by (induction a rule: attemptLoop_induct[where opn = opn])
     (auto simp: attemptLoop_done attemptLoop_ok attemptLoop_throw attemptLoop_retry)

text \<open>
  If the invocations before the \<open>k\<close>-th all threw nonce errors, the loop ends at the
  \<open>k\<close>-th when that returns a receipt, throws an error that is not a nonce error, or is
  the last one allowed: it returns the receipt or throws that error.
\<close>

lemma attemptLoop_stops:
  assumes "a \<le> k" "k < maxAttempts"
    and "\<forall>j. a \<le> j \<and> j < k \<longrightarrow> (\<exists>e. invoke opn j = Inl e \<and> isNonceError e)"
    and "\<not> (\<exists>e. invoke opn k = Inl e \<and> isNonceError e) \<or> k + 1 = maxAttempts"
  shows "fst (attemptLoop opn a) = (case invoke opn k of Inr r \<Rightarrow> Returned r | Inl e \<Rightarrow> Thrown e)
       \<and> map fst (snd (attemptLoop opn a)) = [a ..< k + 1]"
  using assms
proof (induction "k - a" arbitrary: a)
  case 0
  then have ak: "a = k" by simp
  show ?case
  proof (cases "invoke opn k")
    case (Inr r)
    then show ?thesis using 0 ak by (simp add: attemptLoop_ok)
  next
    case (Inl e)
    then have "\<not> (isNonceError e \<and> k + 1 < maxAttempts)" using 0(5) by auto
    then show ?thesis using Inl 0 ak by (simp add: attemptLoop_throw)
  qed
next
  case (Suc n)
  then have lt: "a < k" by simp
  then obtain e where e: "invoke opn a = Inl e" "isNonceError e" using Suc(5) by blast
  have b: "a < maxAttempts" "a + 1 < maxAttempts" using lt Suc(4) by auto
  have ih: "fst (attemptLoop opn (a + 1)) = (case invoke opn k of Inr r \<Rightarrow> Returned r | Inl e \<Rightarrow> Thrown e)
       \<and> map fst (snd (attemptLoop opn (a + 1))) = [a + 1 ..< k + 1]"
    using Suc(1)[of "a + 1"] Suc(2-6) lt by auto
  show ?case
    using ih lt by (simp add: attemptLoop_retry[OF b(1) e b(2)] upt_rec)
qed

text \<open>
  On a rejected queue the operation is not invoked: the call throws the error of the
  earlier call, and the queue stays rejected.
\<close>

lemma executeTransaction_rejected:
  "executeTransaction (Rejected e) opn = (Rejected e, Thrown e, [])"
  by (simp add: executeTransaction_def)

lemma example_errors: "isNonceError nonceTooLow" "\<not> isNonceError reverted"
  by (simp_all add: isNonceError_def nonceTooLow_def reverted_def)

lemma executeTransaction_examples:
  "executeTransaction Fulfilled retried_op =
     (Fulfilled, Returned (Some 42),
      [(0, \<lparr>nonce = Some 7\<rparr>), (1, \<lparr>nonce = Some 8\<rparr>), (2, \<lparr>nonce = Some 9\<rparr>)])"
  "executeTransaction Fulfilled reverted_op = (Rejected reverted, Thrown reverted, [(0, \<lparr>nonce = Some 10\<rparr>)])"
  "executeTransaction (Rejected reverted) retried_op = (Rejected reverted, Thrown reverted, [])"
  by (simp_all add: executeTransaction_def attemptLoop.simps retried_op_def reverted_op_def
      maxAttempts_def getTxOptions_def example_errors)

end
